theory Spec2Isabelle
  imports Complex_Main
begin

section \<open>Noisy Student self-training: the control loop of \<open>noisy_student.py\<close>\<close>

text \<open>
  The theory embeds class \<open>Trainer\<close> of \<open>src/noisy_student.py\<close>: \<open>init_settings\<close>,
  \<open>train\<close>, \<open>train_noisy\<close> and \<open>get_pseudo_label\<close>. The network, the optimiser, the
  loss and the metric helpers are collaborators outside the file; what the control loop
  reads from them is a parameter of the model (record \<open>world\<close>). The validation top-1
  accuracy and the teacher's confidence are real numbers: the loop only compares them.

  The file is run as a script: its last lines bind the global \<open>args\<close> and pass the same
  object to \<open>Trainer\<close>, so the \<open>args\<close> of lines 121, 149 and 151 and the \<open>self.args\<close>
  of the other lines are one configuration record.
\<close>

subsection \<open>Errors\<close>

datatype error =
    UnboundLocalError string
  | NameError string
  | FileNotFoundError int
  | AttributeError string

subsection \<open>Configuration and collaborators\<close>

record config =
  steps :: int
  epochs :: int
  patience :: int
  warm_epoch :: int
  scheduler :: string
  threshold :: real
  batch_size :: nat

datatype sched_kind = MultiStepLR | CosineAnnealingLR | OneCycleLR

text \<open>A learning-rate scheduler: its class and the number of \<open>step()\<close> calls it has seen.\<close>

record lr_scheduler =
  kind :: sched_kind
  last_epoch :: nat

definition new_scheduler :: "sched_kind \<Rightarrow> lr_scheduler" where
  "new_scheduler k = \<lparr>kind = k, last_epoch = 0\<rparr>"

definition scheduler_step :: "lr_scheduler \<Rightarrow> lr_scheduler" where
  "scheduler_step sc = sc\<lparr>last_epoch := Suc (last_epoch sc)\<rparr>"

text \<open>
  What one epoch (\<open>train_one_epoch\<close> followed by \<open>validate\<close>) leaves behind: the student's
  \<open>state_dict\<close> and the three validation metrics. The training metrics are only logged.
\<close>

record 'p epoch_result =
  state_dict :: 'p
  val_loss :: real
  val_top1 :: real
  val_top5 :: real

text \<open>
  The collaborators. \<open>run_epoch ds step epoch\<close> is the outcome of epoch \<open>epoch\<close> of round
  \<open>step\<close> on the training loader's dataset \<open>ds\<close>; \<open>infer p x\<close> is \<open>torch.max\<close> of the softmax
  of the teacher with parameters \<open>p\<close> on image \<open>x\<close> in evaluation mode (confidence, class);
  \<open>fresh_network\<close> is the state of a newly built \<open>Network\<close>; \<open>iter_per_epoch\<close> is the
  binding of that name in the module's namespace (\<open>None\<close>: unbound). The file itself
  never assigns \<open>iter_per_epoch\<close>.
\<close>

record ('x, 'p) world =
  run_epoch :: "('x \<times> nat) list \<Rightarrow> int \<Rightarrow> int \<Rightarrow> 'p epoch_result"
  infer :: "'p \<Rightarrow> 'x \<Rightarrow> real \<times> nat"
  fresh_network :: 'p
  iter_per_epoch :: "int option"

subsection \<open>Checkpoints, events and the trainer object\<close>

text \<open>The dictionary of line 113; the optimiser's state is opaque and never read back.\<close>

record 'p checkpoint =
  ck_epoch :: int
  ck_state_dict :: 'p
  ck_scheduler :: lr_scheduler

text \<open>
  A log of what the orchestrator did, kept beside the program state: a finished call of
  \<open>train_noisy\<close> (round, dataset of the training loader, number of epochs run, last
  checkpoint written by the call), a checkpoint loaded into the teacher (round,
  parameters), a finished call of \<open>get_pseudo_label\<close> (teacher parameters used, accepted
  index and label pairs).
\<close>

datatype ('x, 'p) event =
    Trained int "('x \<times> nat) list" nat "'p checkpoint option"
  | Loaded int 'p
  | Labelled 'p "(nat \<times> nat) list"

text \<open>
  The fields of \<open>self\<close> that the four methods read or write. \<open>files\<close> is the directory
  \<open>save_path\<close>: round \<open>step\<close> maps to the content of \<open>best_model_{step}.pth\<close>.
  \<open>grad_enabled\<close> is torch's global gradient switch. \<open>forwards\<close> logs, for every call of
  the teacher, its \<open>training\<close> flag and the gradient switch at the call.
\<close>

record ('x, 'p) trainer =
  teacher :: 'p
  teacher_training :: bool
  student :: 'p
  self_scheduler :: "lr_scheduler option"
  train_ds :: "('x \<times> nat) list"
  unlabel_ds :: "'x list"
  pseudo_ds :: "('x \<times> nat) list"
  new_ds :: "('x \<times> nat) list"
  train_dl :: "('x \<times> nat) list"
  files :: "int \<rightharpoonup> 'p checkpoint"
  grad_enabled :: bool
  forwards :: "(bool \<times> bool) list"
  trace :: "('x, 'p) event list"

text \<open>
  \<open>Trainer.__init__\<close>, lines 26 to 43: the teacher is a new network in training mode, the
  training loader wraps the labelled split, no scheduler attribute exists yet.
\<close>

definition init_trainer ::
  "('x, 'p) world \<Rightarrow> ('x \<times> nat) list \<Rightarrow> 'x list \<Rightarrow> (int \<rightharpoonup> 'p checkpoint) \<Rightarrow> ('x, 'p) trainer" where
  "init_trainer w labelled pool disk =
     \<lparr>teacher = fresh_network w, teacher_training = True, student = fresh_network w,
      self_scheduler = None, train_ds = labelled, unlabel_ds = pool, pseudo_ds = [],
      new_ds = [], train_dl = labelled, files = disk, grad_enabled = True,
      forwards = [], trace = []\<rparr>"

text \<open>Python's \<open>range(n)\<close>: empty when \<open>n \<le> 0\<close>.\<close>

definition py_range :: "int \<Rightarrow> int list" where
  "py_range n = map int [0..<nat n]"

subsection \<open>\<open>init_settings\<close>, lines 45 to 57\<close>

text \<open>
  An \<open>if\<close>/\<open>elif\<close> chain without \<open>else\<close>: another policy name leaves \<open>self.scheduler\<close>
  as it was. The third branch evaluates the name \<open>iter_per_epoch\<close>.
\<close>

definition init_settings ::
  "config \<Rightarrow> ('x, 'p) world \<Rightarrow> ('x, 'p) trainer \<Rightarrow> error + ('x, 'p) trainer" where
  "init_settings args w self =
     (if scheduler args = ''step'' then
        Inr (self\<lparr>self_scheduler := Some (new_scheduler MultiStepLR)\<rparr>)
      else if scheduler args = ''cos'' then
        Inr (self\<lparr>self_scheduler := Some (new_scheduler CosineAnnealingLR)\<rparr>)
      else if scheduler args = ''cycle'' then
        (case iter_per_epoch w of
           None \<Rightarrow> Inl (NameError ''iter_per_epoch'')
         | Some n \<Rightarrow> Inr (self\<lparr>self_scheduler := Some (new_scheduler OneCycleLR)\<rparr>))
      else Inr self)"

subsection \<open>\<open>train_noisy\<close>, lines 70 to 131\<close>

text \<open>
  The local variables of \<open>train_noisy\<close> together with \<open>self\<close>. Five fields are
  bookkeeping for the statements below and are read by no branch: \<open>epochs_run\<close> counts
  the loop bodies executed, \<open>stopped\<close> says that the \<open>break\<close> of line 122 was taken,
  \<open>saved\<close> is the last dictionary handed to \<open>torch.save\<close>, \<open>writes\<close> lists epoch and
  validation top-1 of every write, \<open>sched_steps\<close> lists the epochs whose body called
  \<open>self.scheduler.step()\<close>.
\<close>

record ('x, 'p) loop_state =
  self :: "('x, 'p) trainer"
  best_epoch :: int
  best_loss :: "real option"
  best_acc :: real
  best_acc2 :: real
  early_stopping :: int
  epochs_run :: nat
  stopped :: bool
  saved :: "'p checkpoint option"
  writes :: "(int \<times> real) list"
  sched_steps :: "int list"

text \<open>Lines 77 to 81; \<open>best_loss = None\<close> stands for \<open>np.inf\<close>.\<close>

definition init_loop :: "('x, 'p) trainer \<Rightarrow> ('x, 'p) loop_state" where
  "init_loop slf =
     \<lparr>self = slf, best_epoch = 0, best_loss = None, best_acc = 0, best_acc2 = 0,
      early_stopping = 0, epochs_run = 0, stopped = False, saved = None, writes = [],
      sched_steps = []\<rparr>"

text \<open>Lines 85 to 87: the only call of \<open>scheduler.step()\<close> in the file.\<close>

definition lr_advance ::
  "config \<Rightarrow> int \<Rightarrow> ('x, 'p) loop_state \<Rightarrow> error + ('x, 'p) loop_state" where
  "lr_advance args epoch ls =
     (if scheduler args = ''cos'' then
        (if epoch > warm_epoch args then
           (case self_scheduler (self ls) of
              None \<Rightarrow> Inl (AttributeError ''scheduler'')
            | Some sc \<Rightarrow>
                Inr (ls\<lparr>self := (self ls)\<lparr>self_scheduler := Some (scheduler_step sc)\<rparr>,
                        sched_steps := sched_steps ls @ [epoch]\<rparr>))
         else Inr ls)
      else Inr ls)"

text \<open>
  Lines 104 to 119. The dictionary is built before \<open>torch.save\<close> runs, so a missing
  \<open>scheduler\<close> attribute raises before anything is written.
\<close>

definition checkpointing ::
  "int \<Rightarrow> int \<Rightarrow> 'p epoch_result \<Rightarrow> ('x, 'p) loop_state \<Rightarrow> error + ('x, 'p) loop_state" where
  "checkpointing step epoch r ls =
     (if val_top1 r > best_acc ls then
        (case self_scheduler (self ls) of
           None \<Rightarrow> Inl (AttributeError ''scheduler'')
         | Some sc \<Rightarrow>
             (let ck = \<lparr>ck_epoch = epoch, ck_state_dict = state_dict r, ck_scheduler = sc\<rparr>
              in Inr (ls\<lparr>early_stopping := 0, best_epoch := epoch,
                         best_loss := Some (val_loss r), best_acc := val_top1 r,
                         best_acc2 := val_top5 r,
                         self := (self ls)\<lparr>files := (files (self ls))(step \<mapsto> ck)\<rparr>,
                         saved := Some ck,
                         writes := writes ls @ [(epoch, val_top1 r)]\<rparr>)))
      else Inr (ls\<lparr>early_stopping := early_stopping ls + 1\<rparr>))"

text \<open>Lines 85 to 119: one body of the epoch loop up to the test of line 121.\<close>

definition epoch_body ::
  "config \<Rightarrow> ('x, 'p) world \<Rightarrow> int \<Rightarrow> int \<Rightarrow> ('x, 'p) loop_state \<Rightarrow>
   error + ('x, 'p) loop_state" where
  "epoch_body args w step epoch ls =
     (case lr_advance args epoch ls of
        Inl e \<Rightarrow> Inl e
      | Inr ls1 \<Rightarrow>
          (let r = run_epoch w (train_dl (self ls1)) step epoch;
               ls2 = ls1\<lparr>self := (self ls1)\<lparr>student := state_dict r\<rparr>,
                         epochs_run := Suc (epochs_run ls1)\<rparr>
           in checkpointing step epoch r ls2))"

text \<open>Lines 83 to 127: the loop over \<open>range(self.args.epochs)\<close> with its \<open>break\<close>.\<close>

fun epoch_loop ::
  "config \<Rightarrow> ('x, 'p) world \<Rightarrow> int \<Rightarrow> int list \<Rightarrow> ('x, 'p) loop_state \<Rightarrow>
   error + ('x, 'p) loop_state" where
  "epoch_loop args w step [] ls = Inr ls"
| "epoch_loop args w step (epoch # rest) ls =
     (case epoch_body args w step epoch ls of
        Inl e \<Rightarrow> Inl e
      | Inr ls' \<Rightarrow>
          if early_stopping ls' = patience args then Inr (ls'\<lparr>stopped := True\<rparr>)
          else epoch_loop args w step rest ls')"

text \<open>\<open>train_noisy\<close> up to the end of its loop, with the local variables still in view.\<close>

definition train_noisy_vars ::
  "config \<Rightarrow> ('x, 'p) world \<Rightarrow> int \<Rightarrow> ('x, 'p) trainer \<Rightarrow> error + ('x, 'p) loop_state" where
  "train_noisy_vars args w step slf =
     (case init_settings args w (slf\<lparr>student := fresh_network w\<rparr>) of
        Inl e \<Rightarrow> Inl e
      | Inr slf1 \<Rightarrow> epoch_loop args w step (py_range (epochs args)) (init_loop slf1))"

text \<open>\<open>train_noisy\<close>: the locals are dropped, the finished call is logged.\<close>

definition train_noisy ::
  "config \<Rightarrow> ('x, 'p) world \<Rightarrow> int \<Rightarrow> ('x, 'p) trainer \<Rightarrow> error + ('x, 'p) trainer" where
  "train_noisy args w step slf =
     (case train_noisy_vars args w step slf of
        Inl e \<Rightarrow> Inl e
      | Inr ls \<Rightarrow>
          Inr ((self ls)\<lparr>trace := trace (self ls) @
                 [Trained step (train_dl (self ls)) (epochs_run ls) (saved ls)]\<rparr>))"

subsection \<open>\<open>get_pseudo_label\<close>, lines 133 to 151\<close>

text \<open>
  The unlabelled loader of line 37 does not shuffle and keeps the last short batch: it
  yields the pool in order, \<open>batch_size\<close> images at a time.
\<close>

fun batches :: "nat \<Rightarrow> 'a list \<Rightarrow> 'a list list" where
  "batches n xs = (if n = 0 \<or> xs = [] then [] else take n xs # batches n (drop n xs))"

declare batches.simps [simp del]

text \<open>Lines 136 to 144: the two lists grown batch by batch.\<close>

definition predictions :: "('x, 'p) world \<Rightarrow> 'p \<Rightarrow> 'x list list \<Rightarrow> real list" where
  "predictions w p bs = concat (map (map (\<lambda>x. fst (infer w p x))) bs)"

definition pseudo_labels :: "('x, 'p) world \<Rightarrow> 'p \<Rightarrow> 'x list list \<Rightarrow> nat list" where
  "pseudo_labels w p bs = concat (map (map (\<lambda>x. snd (infer w p x))) bs)"

text \<open>Lines 146 and 147: the two comprehensions.\<close>

definition select_indices :: "real \<Rightarrow> real list \<Rightarrow> nat list" where
  "select_indices t prediction =
     map fst (filter (\<lambda>(i, p). p > t) (enumerate 0 prediction))"

definition select_labels :: "real \<Rightarrow> real list \<Rightarrow> nat list \<Rightarrow> nat list" where
  "select_labels t prediction labs =
     map snd (filter (\<lambda>(p, l). p > t) (zip prediction labs))"

text \<open>
  Modelled from the spec: the constructor \<open>CIFAR10(split='pseudo', indices, labels)\<close> of
  \<open>datasets/loader_cifar.py\<close> is not among the sources. The spec's dataset provider
  builds, from explicit indices and labels, a labelled partition drawn from the same raw
  inputs as the unlabelled pool with these assigned labels.
\<close>

definition CIFAR10_pseudo :: "'x list \<Rightarrow> nat list \<Rightarrow> nat list \<Rightarrow> ('x \<times> nat) list" where
  "CIFAR10_pseudo pool indices labels = map (\<lambda>(i, l). (pool ! i, l)) (zip indices labels)"

text \<open>
  Lines 136 to 147 for a teacher with parameters \<open>p\<close>: the lists \<open>indices\<close> and
  \<open>labels\<close> handed to the dataset constructor.
\<close>

definition select_pseudo ::
  "config \<Rightarrow> ('x, 'p) world \<Rightarrow> 'p \<Rightarrow> 'x list \<Rightarrow> nat list \<times> nat list" where
  "select_pseudo args w p pool =
     (let bs = batches (batch_size args) pool;
          prediction = predictions w p bs;
          labs = pseudo_labels w p bs
      in (select_indices (threshold args) prediction,
          select_labels (threshold args) prediction labs))"

text \<open>
  \<open>get_pseudo_label\<close>. \<open>self.teacher.eval()\<close> clears the training flag; the \<open>with\<close>
  block switches gradients off and restores the switch on exit; every batch is one
  forward call; \<open>+\<close> on datasets concatenates.
\<close>

definition get_pseudo_label ::
  "config \<Rightarrow> ('x, 'p) world \<Rightarrow> ('x, 'p) trainer \<Rightarrow> ('x, 'p) trainer" where
  "get_pseudo_label args w slf =
     (let s1 = slf\<lparr>teacher_training := False\<rparr>;
          s2 = s1\<lparr>grad_enabled := False\<rparr>;
          s3 = s2\<lparr>forwards := forwards s2 @
                    map (\<lambda>b. (teacher_training s2, grad_enabled s2))
                      (batches (batch_size args) (unlabel_ds s2))\<rparr>;
          (indices, labels) = select_pseudo args w (teacher s3) (unlabel_ds s3);
          pseudo = CIFAR10_pseudo (unlabel_ds s3) indices labels;
          new = train_ds s3 @ pseudo
      in s3\<lparr>pseudo_ds := pseudo, new_ds := new, train_dl := new,
            grad_enabled := grad_enabled slf,
            trace := trace s3 @ [Labelled (teacher s3) (zip indices labels)]\<rparr>)"

subsection \<open>\<open>train\<close>, lines 62 to 68\<close>

text \<open>Lines 65 and 66: \<open>torch.load\<close> of the round's file, then \<open>load_state_dict\<close>.\<close>

definition load_teacher :: "int \<Rightarrow> ('x, 'p) trainer \<Rightarrow> error + ('x, 'p) trainer" where
  "load_teacher step slf =
     (case files slf step of
        None \<Rightarrow> Inl (FileNotFoundError step)
      | Some pth \<Rightarrow>
          Inr (slf\<lparr>teacher := ck_state_dict pth,
                  trace := trace slf @ [Loaded step (ck_state_dict pth)]\<rparr>))"

text \<open>Lines 63 to 67: the loop over the rounds.\<close>

fun for_steps ::
  "config \<Rightarrow> ('x, 'p) world \<Rightarrow> int list \<Rightarrow> ('x, 'p) trainer \<Rightarrow> error + ('x, 'p) trainer" where
  "for_steps args w [] slf = Inr slf"
| "for_steps args w (step # rest) slf =
     (case train_noisy args w step slf of
        Inl e \<Rightarrow> Inl e
      | Inr s1 \<Rightarrow>
          (case load_teacher step s1 of
             Inl e \<Rightarrow> Inl e
           | Inr s2 \<Rightarrow> for_steps args w rest (get_pseudo_label args w s2)))"

text \<open>
  \<open>train\<close>. After the loop the name \<open>step\<close> holds the last element of the range; when the
  range is empty the name was never bound and line 68 raises before \<open>train_noisy\<close> is
  entered.
\<close>

definition train ::
  "config \<Rightarrow> ('x, 'p) world \<Rightarrow> ('x, 'p) trainer \<Rightarrow> error + ('x, 'p) trainer" where
  "train args w slf =
     (let rounds = py_range (steps args) in
      case for_steps args w rounds slf of
        Inl e \<Rightarrow> Inl e
      | Inr s1 \<Rightarrow>
          if rounds = [] then Inl (UnboundLocalError ''step'')
          else train_noisy args w (last rounds + 1) s1)"

subsection \<open>Concrete collaborators for the checked scenarios\<close>

text \<open>
  A world given by tables: round \<open>step\<close> sees the validation top-1 values \<open>vals step\<close>,
  epoch by epoch (0 beyond the table); the student's state after an epoch is the pair
  of round and epoch; a teacher taken from round \<open>r\<close> gives image \<open>x\<close> the confidence
  \<open>confs r ! x\<close> and the class \<open>x mod 10\<close>. No name \<open>iter_per_epoch\<close> is bound, as in the
  file.
\<close>

definition table_world ::
  "(int \<Rightarrow> real list) \<Rightarrow> (int \<Rightarrow> real list) \<Rightarrow> (nat, int \<times> int) world" where
  "table_world vals confs =
     \<lparr>run_epoch = (\<lambda>ds step epoch.
        \<lparr>state_dict = (step, epoch), val_loss = 0,
         val_top1 = (if nat epoch < length (vals step) then vals step ! nat epoch else 0),
         val_top5 = 1\<rparr>),
      infer = (\<lambda>p x. (if x < length (confs (fst p)) then confs (fst p) ! x else 0, x mod 10)),
      fresh_network = (-1, -1), iter_per_epoch = None\<rparr>"

text \<open>
  The two end-to-end scenarios of the spec in one run: two rounds, five epochs, patience
  two, threshold 0.8; every round validates at 0.5, 0.6, 0.55, 0.58, 0.4; the teacher of
  round 0 has the ten confidences of the spec, the teacher of round 1 is below the
  threshold everywhere.
\<close>

definition scenario_args :: config where
  "scenario_args =
     \<lparr>steps = 2, epochs = 5, patience = 2, warm_epoch = 1, scheduler = ''cos'',
      threshold = 8 / 10, batch_size = 4\<rparr>"

definition scenario_world :: "(nat, int \<times> int) world" where
  "scenario_world =
     table_world (\<lambda>r. [5 / 10, 6 / 10, 55 / 100, 58 / 100, 4 / 10])
       (\<lambda>r. if r = 0
            then [9 / 10, 4 / 10, 95 / 100, 2 / 10, 99 / 100, 5 / 10, 3 / 10, 85 / 100,
                  1 / 10, 6 / 10]
            else [1 / 10, 1 / 10, 1 / 10, 1 / 10, 1 / 10, 1 / 10, 1 / 10, 1 / 10, 1 / 10,
                  1 / 10])"

definition scenario_trainer :: "(nat, int \<times> int) trainer" where
  "scenario_trainer =
     init_trainer scenario_world [(100, 3), (101, 5)] [0, 1, 2, 3, 4, 5, 6, 7, 8, 9] Map.empty"

text \<open>Three images just below, at and just above the threshold 0.8.\<close>

definition boundary_world :: "(nat, int \<times> int) world" where
  "boundary_world = table_world (\<lambda>r. [1 / 2]) (\<lambda>r. [79 / 100, 8 / 10, 81 / 100])"

definition boundary_trainer :: "(nat, int \<times> int) trainer" where
  "boundary_trainer = init_trainer boundary_world [(100, 3)] [0, 1, 2] Map.empty"

text \<open>A world whose validation top-1 is 0 in every epoch of every round.\<close>

definition zero_world :: "(nat, int \<times> int) world" where
  "zero_world = table_world (\<lambda>r. []) (\<lambda>r. [])"

definition zero_trainer :: "(nat, int \<times> int) trainer" where
  "zero_trainer = init_trainer zero_world [(100, 3), (101, 5)] [0, 1, 2] Map.empty"

text \<open>
  A run that finds an old file in \<open>save_path\<close>: one round, validation top-1 0 in every
  epoch, a pool of three images that parameters \<open>(9, 9)\<close> score 0.9 (and any other
  parameters 0), and a \<open>best_model_0.pth\<close> holding the parameters \<open>(9, 9)\<close>.
\<close>

definition stale_args :: config where
  "stale_args = scenario_args\<lparr>steps := 1\<rparr>"

definition stale_world :: "(nat, int \<times> int) world" where
  "stale_world =
     table_world (\<lambda>r. []) (\<lambda>r. if r = 9 then [9 / 10, 9 / 10, 9 / 10] else [])"

definition stale_trainer :: "(nat, int \<times> int) trainer" where
  "stale_trainer =
     init_trainer stale_world [(100, 3), (101, 5)] [0, 1, 2]
       [0 \<mapsto> \<lparr>ck_epoch = 3, ck_state_dict = (9, 9),
                ck_scheduler = new_scheduler CosineAnnealingLR\<rparr>]"

text \<open>The datasets that the finished calls of \<open>train_noisy\<close> trained on, by round.\<close>

definition trained_sets :: "('x, 'p) event list \<Rightarrow> (int \<times> ('x \<times> nat) list) list" where
  "trained_sets evs =
     concat (map (\<lambda>e. case e of Trained r ds n c \<Rightarrow> [(r, ds)] | _ \<Rightarrow> []) evs)"

subsection \<open>Invariants of the epoch loop\<close>

text \<open>
  The early-stop counter counts the epochs run since the last write, or all epochs run
  when nothing was written yet; the last entry of \<open>writes\<close> is the current best.
\<close>

definition counter_inv :: "('x, 'p) loop_state \<Rightarrow> bool" where
  "counter_inv ls \<longleftrightarrow>
     (writes ls = [] \<longrightarrow> early_stopping ls = int (epochs_run ls) \<and> best_epoch ls = 0
        \<and> best_acc ls = 0 \<and> saved ls = None)
   \<and> (writes ls \<noteq> [] \<longrightarrow> best_epoch ls + early_stopping ls + 1 = int (epochs_run ls)
        \<and> 0 \<le> best_epoch ls \<and> 0 \<le> early_stopping ls
        \<and> last (writes ls) = (best_epoch ls, best_acc ls))"

text \<open>The written accuracies are positive and strictly increasing, bounded by the best.\<close>

definition improve_inv :: "('x, 'p) loop_state \<Rightarrow> bool" where
  "improve_inv ls \<longleftrightarrow>
     sorted_wrt (<) (map snd (writes ls)) \<and> 0 \<le> best_acc ls
   \<and> (\<forall>x\<in>set (writes ls). 0 < snd x \<and> snd x \<le> best_acc ls)"

text \<open>No epoch run so far validated above \<open>best_acc\<close>; every write is an epoch run.\<close>

definition max_inv ::
  "('x, 'p) world \<Rightarrow> int \<Rightarrow> ('x \<times> nat) list \<Rightarrow> ('x, 'p) loop_state \<Rightarrow> bool" where
  "max_inv w step ds ls \<longleftrightarrow>
     train_dl (self ls) = ds
   \<and> (\<forall>e. 0 \<le> e \<and> e < int (epochs_run ls) \<longrightarrow> val_top1 (run_epoch w ds step e) \<le> best_acc ls)
   \<and> (\<forall>x\<in>set (writes ls). 0 \<le> fst x \<and> fst x < int (epochs_run ls)
          \<and> snd x = val_top1 (run_epoch w ds step (fst x)))"

text \<open>
  Only the round's own file changes; it holds the last dictionary saved, which is the
  student's state after the best epoch.
\<close>

definition files_inv ::
  "('x, 'p) world \<Rightarrow> int \<Rightarrow> ('x \<times> nat) list \<Rightarrow> (int \<rightharpoonup> 'p checkpoint) \<Rightarrow>
   ('x, 'p) loop_state \<Rightarrow> bool" where
  "files_inv w step ds disk ls \<longleftrightarrow>
     train_dl (self ls) = ds
   \<and> (\<forall>r. r \<noteq> step \<longrightarrow> files (self ls) r = disk r)
   \<and> (case saved ls of
         None \<Rightarrow> writes ls = [] \<and> files (self ls) step = disk step
       | Some ck \<Rightarrow> writes ls \<noteq> [] \<and> files (self ls) step = Some ck
           \<and> ck_epoch ck = best_epoch ls
           \<and> ck_state_dict ck = state_dict (run_epoch w ds step (best_epoch ls)))"

text \<open>The scheduler was stepped in exactly the epochs that the test of lines 85, 86 lets through.\<close>

definition sched_inv :: "config \<Rightarrow> sched_kind \<Rightarrow> ('x, 'p) loop_state \<Rightarrow> bool" where
  "sched_inv args k ls \<longleftrightarrow>
     sched_steps ls
       = filter (\<lambda>e. scheduler args = ''cos'' \<and> warm_epoch args < e) (map int [0..<epochs_run ls])
   \<and> self_scheduler (self ls) = Some \<lparr>kind = k, last_epoch = length (sched_steps ls)\<rparr>"

text \<open>The fields of \<open>self\<close> that the epoch loop leaves alone.\<close>

definition frame_inv :: "('x, 'p) trainer \<Rightarrow> ('x, 'p) loop_state \<Rightarrow> bool" where
  "frame_inv slf ls \<longleftrightarrow>
     train_dl (self ls) = train_dl slf \<and> train_ds (self ls) = train_ds slf
   \<and> unlabel_ds (self ls) = unlabel_ds slf \<and> teacher (self ls) = teacher slf
   \<and> trace (self ls) = trace slf \<and> forwards (self ls) = forwards slf
   \<and> grad_enabled (self ls) = grad_enabled slf
   \<and> teacher_training (self ls) = teacher_training slf
   \<and> pseudo_ds (self ls) = pseudo_ds slf \<and> new_ds (self ls) = new_ds slf"

subsection \<open>Vocabulary for whole runs\<close>

text \<open>The accepted pairs of a labelling pass with teacher parameters \<open>p\<close>.\<close>

definition accepted :: "config \<Rightarrow> ('x, 'p) world \<Rightarrow> 'p \<Rightarrow> 'x list \<Rightarrow> (nat \<times> nat) list" where
  "accepted args w p pool =
     zip (fst (select_pseudo args w p pool)) (snd (select_pseudo args w p pool))"

text \<open>
  A round is summed up by the dataset it trained on, the number of epochs it ran, the
  checkpoint it left and the pairs its labelling pass accepted. These are its three
  log entries.
\<close>

type_synonym ('x, 'p) round_info = "('x \<times> nat) list \<times> nat \<times> 'p checkpoint \<times> (nat \<times> nat) list"

fun round_events :: "int \<times> ('x, 'p) round_info \<Rightarrow> ('x, 'p) event list" where
  "round_events (r, d, n, c, a) =
     [Trained r d n (Some c), Loaded r (ck_state_dict c), Labelled (ck_state_dict c) a]"

text \<open>
  Checkpoint \<open>c\<close> is the best of a round \<open>r\<close> that ran \<open>n\<close> epochs on dataset \<open>d\<close>: it
  holds the student's state after one of these epochs, and none of them validated
  higher.
\<close>

definition round_best ::
  "('x, 'p) world \<Rightarrow> int \<Rightarrow> ('x \<times> nat) list \<Rightarrow> nat \<Rightarrow> 'p checkpoint \<Rightarrow> bool" where
  "round_best w r d n c \<longleftrightarrow>
     0 \<le> ck_epoch c \<and> ck_epoch c < int n
   \<and> ck_state_dict c = state_dict (run_epoch w d r (ck_epoch c))
   \<and> (\<forall>e. 0 \<le> e \<and> e < int n \<longrightarrow>
         val_top1 (run_epoch w d r e) \<le> val_top1 (run_epoch w d r (ck_epoch c)))"

text \<open>
  How the datasets of consecutive rounds hang together: the first round trains on \<open>d\<close>;
  the pairs a round accepts are those of its own checkpoint on the pool; the round after
  it trains on the labelled set \<open>lab\<close> followed by these pairs materialised, and on
  nothing else. \<open>dfin\<close> is the dataset left for the training pass after the last round.
\<close>

fun chain ::
  "config \<Rightarrow> ('x, 'p) world \<Rightarrow> ('x \<times> nat) list \<Rightarrow> 'x list \<Rightarrow> ('x \<times> nat) list \<Rightarrow>
   ('x, 'p) round_info list \<Rightarrow> ('x \<times> nat) list \<Rightarrow> bool" where
  "chain args w lab pool d [] dfin \<longleftrightarrow> dfin = d"
| "chain args w lab pool d ((d', n, c, a) # rest) dfin \<longleftrightarrow>
     d' = d \<and> a = accepted args w (ck_state_dict c) pool
   \<and> chain args w lab pool (lab @ CIFAR10_pseudo pool (map fst a) (map snd a)) rest dfin"

text \<open>
  Read off a list of round summaries: the datasets of the rounds followed by the dataset
  of the final training pass, the checkpoints of the rounds, the pairs accepted in the
  rounds.
\<close>

definition round_sets :: "('x, 'p) round_info list \<Rightarrow> ('x \<times> nat) list \<Rightarrow> ('x \<times> nat) list list" where
  "round_sets info dfin = map fst info @ [dfin]"

definition round_checkpoints :: "('x, 'p) round_info list \<Rightarrow> 'p checkpoint list" where
  "round_checkpoints info = map (\<lambda>(d, n, c, a). c) info"

definition round_accepted :: "('x, 'p) round_info list \<Rightarrow> (nat \<times> nat) list list" where
  "round_accepted info = map (\<lambda>(d, n, c, a). a) info"

text \<open>The accepted pairs of the finished labelling passes.\<close>

definition labelled_pairs :: "('x, 'p) event list \<Rightarrow> (nat \<times> nat) list list" where
  "labelled_pairs evs =
     concat (map (\<lambda>e. case e of Labelled p a \<Rightarrow> [a] | _ \<Rightarrow> []) evs)"

text \<open>
  The scenario's trainer as round 1 leaves it for labelling: the teacher of round 1, which
  is below the threshold everywhere, and a training loader that holds four pseudo-labels.
\<close>

definition rejecting_trainer :: "(nat, int \<times> int) trainer" where
  "rejecting_trainer =
     scenario_trainer\<lparr>teacher := (1, 1),
       train_dl := [(100, 3), (101, 5), (0, 0), (2, 2), (4, 4), (7, 7)]\<rparr>"

text \<open>A trainer that shares only the teacher and the pool with the scenario's.\<close>

definition other_trainer :: "(nat, int \<times> int) trainer" where
  "other_trainer =
     scenario_trainer\<lparr>teacher := (0, 1), student := (5, 5), train_ds := [(7, 7)],
       train_dl := [], teacher_training := False, grad_enabled := False\<rparr>"

section \<open>The pseudo-labeller\<close>

lemma concat_batches: "0 < n \<Longrightarrow> concat (batches n xs) = xs"
proof (induction n xs rule: batches.induct)
  case (1 n xs)
  show ?case
  proof (cases "xs = []")
    case True
    then show ?thesis by (simp add: batches.simps)
  next
    case False
    with 1 have "concat (batches n (drop n xs)) = drop n xs" by simp
    with False 1(2) show ?thesis by (subst batches.simps) simp
  qed
qed

lemma predictions_batches:
  "0 < n \<Longrightarrow> predictions w p (batches n xs) = map (\<lambda>x. fst (infer w p x)) xs"
  by (simp add: predictions_def map_concat [symmetric] concat_batches)

lemma pseudo_labels_batches:
  "0 < n \<Longrightarrow> pseudo_labels w p (batches n xs) = map (\<lambda>x. snd (infer w p x)) xs"
  by (simp add: pseudo_labels_def map_concat [symmetric] concat_batches)

text \<open>The two comprehensions walk the same positions: zipped, they are one filter.\<close>

lemma selected_from:
  "length ps = length ls \<Longrightarrow>
   zip (map fst (filter (\<lambda>(i, p). p > t) (enumerate n ps)))
       (map snd (filter (\<lambda>(p, l). p > t) (zip ps ls)))
   = map (\<lambda>i. (i, ls ! (i - n))) (filter (\<lambda>i. ps ! (i - n) > t) [n..<n + length ps])"
proof (induction ps ls arbitrary: n rule: list_induct2)
  case Nil
  then show ?case by simp
next
  case (Cons p ps l ls)
  have up: "[n..<n + length (p # ps)] = n # [Suc n..<Suc n + length ps]"
    by (subst upt_rec) simp
  have f: "filter (\<lambda>i. (p # ps) ! (i - n) > t) [Suc n..<Suc n + length ps]
         = filter (\<lambda>i. ps ! (i - Suc n) > t) [Suc n..<Suc n + length ps]"
    by (rule filter_cong) (auto simp: nth_Cons')
  have m: "map (\<lambda>i. (i, (l # ls) ! (i - n)))
             (filter (\<lambda>i. ps ! (i - Suc n) > t) [Suc n..<Suc n + length ps])
         = map (\<lambda>i. (i, ls ! (i - Suc n)))
             (filter (\<lambda>i. ps ! (i - Suc n) > t) [Suc n..<Suc n + length ps])"
    by (rule map_cong) (auto simp: nth_Cons')
  show ?case
    unfolding up using Cons.IH [of "Suc n"] f m by simp
qed

lemma selected_pairs:
  "length ps = length ls \<Longrightarrow>
   zip (select_indices t ps) (select_labels t ps ls)
   = map (\<lambda>i. (i, ls ! i)) (filter (\<lambda>i. ps ! i > t) [0..<length ps])"
  using selected_from [of ps ls t 0] by (simp add: select_indices_def select_labels_def)

lemma length_selected:
  "length ps = length ls \<Longrightarrow> length (select_indices t ps) = length (select_labels t ps ls)"
proof -
  have "length ps = length ls \<Longrightarrow>
        length (map fst (filter (\<lambda>(i, p). p > t) (enumerate n ps)))
      = length (map snd (filter (\<lambda>(p, l). p > t) (zip ps ls)))" for n
    by (induction ps ls arbitrary: n rule: list_induct2) auto
  then show "length ps = length ls \<Longrightarrow> ?thesis"
    by (simp add: select_indices_def select_labels_def)
qed

lemma select_indices_filter:
  "select_indices t ps = filter (\<lambda>i. ps ! i > t) [0..<length ps]"
proof -
  have l: "length ps = length (replicate (length ps) (0::nat))" by simp
  have "map fst (zip (select_indices t ps) (select_labels t ps (replicate (length ps) 0)))
      = map fst (map (\<lambda>i. (i, replicate (length ps) (0::nat) ! i))
                  (filter (\<lambda>i. ps ! i > t) [0..<length ps]))"
    using selected_pairs [OF l, of t] by simp
  moreover have "map fst (zip (select_indices t ps)
                   (select_labels t ps (replicate (length ps) 0))) = select_indices t ps"
    using length_selected [OF l, of t] by simp
  ultimately show ?thesis by (simp add: comp_def)
qed

lemma select_labels_map:
  assumes "length ps = length ls"
  shows "select_labels t ps ls = map (\<lambda>i. ls ! i) (select_indices t ps)"
proof -
  have "map snd (zip (select_indices t ps) (select_labels t ps ls))
      = map snd (map (\<lambda>i. (i, ls ! i)) (filter (\<lambda>i. ps ! i > t) [0..<length ps]))"
    using selected_pairs [OF assms, of t] by simp
  moreover have "map snd (zip (select_indices t ps) (select_labels t ps ls))
               = select_labels t ps ls"
    using length_selected [OF assms, of t] by simp
  ultimately show ?thesis by (simp add: comp_def select_indices_filter)
qed

text \<open>Lines 136 to 147 as a function of the pool, whatever the batch size.\<close>

lemma select_pseudo_eq:
  assumes "0 < batch_size args"
  shows "select_pseudo args w p pool =
           (filter (\<lambda>i. threshold args < fst (infer w p (pool ! i))) [0..<length pool],
            map (\<lambda>i. snd (infer w p (pool ! i)))
              (filter (\<lambda>i. threshold args < fst (infer w p (pool ! i))) [0..<length pool]))"
proof -
  let ?ps = "map (\<lambda>x. fst (infer w p x)) pool"
  let ?ls = "map (\<lambda>x. snd (infer w p x)) pool"
  have i: "select_indices (threshold args) ?ps
         = filter (\<lambda>i. threshold args < fst (infer w p (pool ! i))) [0..<length pool]"
    unfolding select_indices_filter length_map by (rule filter_cong) auto
  have "select_labels (threshold args) ?ps ?ls
      = map (\<lambda>i. ?ls ! i) (select_indices (threshold args) ?ps)"
    by (rule select_labels_map) simp
  also have "\<dots> = map (\<lambda>i. snd (infer w p (pool ! i)))
                    (filter (\<lambda>i. threshold args < fst (infer w p (pool ! i))) [0..<length pool])"
    unfolding i by (rule map_cong) auto
  finally show ?thesis
    using assms i
    by (simp add: select_pseudo_def Let_def predictions_batches pseudo_labels_batches)
qed

lemma get_pseudo_label_fields:
  "pseudo_ds (get_pseudo_label args w slf)
     = CIFAR10_pseudo (unlabel_ds slf)
         (fst (select_pseudo args w (teacher slf) (unlabel_ds slf)))
         (snd (select_pseudo args w (teacher slf) (unlabel_ds slf)))"
  "train_dl (get_pseudo_label args w slf) = train_ds slf @ pseudo_ds (get_pseudo_label args w slf)"
  "new_ds (get_pseudo_label args w slf) = train_dl (get_pseudo_label args w slf)"
  "trace (get_pseudo_label args w slf)
     = trace slf @ [Labelled (teacher slf)
         (zip (fst (select_pseudo args w (teacher slf) (unlabel_ds slf)))
              (snd (select_pseudo args w (teacher slf) (unlabel_ds slf))))]"
  "train_ds (get_pseudo_label args w slf) = train_ds slf"
  "unlabel_ds (get_pseudo_label args w slf) = unlabel_ds slf"
  "teacher (get_pseudo_label args w slf) = teacher slf"
  "student (get_pseudo_label args w slf) = student slf"
  "files (get_pseudo_label args w slf) = files slf"
  "self_scheduler (get_pseudo_label args w slf) = self_scheduler slf"
  "grad_enabled (get_pseudo_label args w slf) = grad_enabled slf"
  "teacher_training (get_pseudo_label args w slf) = False"
  "forwards (get_pseudo_label args w slf)
     = forwards slf @ replicate (length (batches (batch_size args) (unlabel_ds slf))) (False, False)"
  by (simp_all add: get_pseudo_label_def Let_def split_beta map_replicate_const)

text \<open>
  C6. Pseudo-label filtering is boundary-exclusive. With a usable batch size, the indices
  kept by \<open>get_pseudo_label\<close> are exactly the pool positions whose top-class confidence
  is strictly greater than the threshold, in pool order; a position whose confidence
  equals the threshold is not kept; the label list pairs each kept index with the class
  predicted for it, and the pseudo-labelled partition and the logged accepted pairs are
  built from exactly these.
\<close>

theorem pseudo_label_threshold_exclusive:
  assumes "0 < batch_size args"
  shows "(let pool = unlabel_ds slf; p = teacher slf;
              indices = fst (select_pseudo args w p pool);
              labels = snd (select_pseudo args w p pool)
          in indices = filter (\<lambda>i. threshold args < fst (infer w p (pool ! i))) [0..<length pool]
           \<and> labels = map (\<lambda>i. snd (infer w p (pool ! i))) indices
           \<and> (\<forall>i<length pool. i \<in> set indices \<longleftrightarrow> threshold args < fst (infer w p (pool ! i)))
           \<and> (\<forall>i<length pool. fst (infer w p (pool ! i)) = threshold args \<longrightarrow> i \<notin> set indices)
           \<and> pseudo_ds (get_pseudo_label args w slf)
               = map (\<lambda>i. (pool ! i, snd (infer w p (pool ! i)))) indices
           \<and> trace (get_pseudo_label args w slf)
               = trace slf @ [Labelled p (map (\<lambda>i. (i, snd (infer w p (pool ! i)))) indices)])"
  unfolding Let_def select_pseudo_eq [OF assms] get_pseudo_label_fields fst_conv snd_conv
  by (auto simp: CIFAR10_pseudo_def zip_map2 zip_same_conv_map comp_def)

theorem pseudo_label_threshold_exclusive_witness:
  "0 < batch_size scenario_args
   \<and> fst (infer boundary_world (teacher boundary_trainer) (unlabel_ds boundary_trainer ! 1))
       = threshold scenario_args
   \<and> 1 \<notin> set (fst (select_pseudo scenario_args boundary_world (teacher boundary_trainer)
                   (unlabel_ds boundary_trainer)))
   \<and> 2 \<in> set (fst (select_pseudo scenario_args boundary_world (teacher boundary_trainer)
                   (unlabel_ds boundary_trainer)))"
proof -
  have h: "0 < batch_size scenario_args" by (simp add: scenario_args_def)
  have e: "fst (infer boundary_world (teacher boundary_trainer)
             (unlabel_ds boundary_trainer ! 1)) = threshold scenario_args"
    by code_simp
  have g: "threshold scenario_args
           < fst (infer boundary_world (teacher boundary_trainer)
                   (unlabel_ds boundary_trainer ! 2))"
    by code_simp
  have l: "1 < length (unlabel_ds boundary_trainer)" "2 < length (unlabel_ds boundary_trainer)"
    by code_simp+
  show ?thesis
    using h e g l pseudo_label_threshold_exclusive [OF h, of boundary_trainer boundary_world]
    unfolding Let_def by blast
qed

section \<open>The epoch loop\<close>

subsection \<open>One body of the loop\<close>

lemma epoch_body_frame:
  assumes "epoch_body args w step e ls = Inr ls'"
  shows "epochs_run ls' = Suc (epochs_run ls)" "stopped ls' = stopped ls"
    "train_dl (self ls') = train_dl (self ls)" "train_ds (self ls') = train_ds (self ls)"
    "unlabel_ds (self ls') = unlabel_ds (self ls)" "teacher (self ls') = teacher (self ls)"
    "trace (self ls') = trace (self ls)" "forwards (self ls') = forwards (self ls)"
    "grad_enabled (self ls') = grad_enabled (self ls)"
    "teacher_training (self ls') = teacher_training (self ls)"
    "pseudo_ds (self ls') = pseudo_ds (self ls)" "new_ds (self ls') = new_ds (self ls)"
  using assms
  by (auto simp: epoch_body_def lr_advance_def checkpointing_def Let_def
           split: sum.splits if_splits option.splits)

text \<open>Lines 106 to 119: what an improving epoch and what any other epoch does.\<close>

lemma epoch_body_improve:
  assumes "epoch_body args w step e ls = Inr ls'"
      and "best_acc ls < val_top1 (run_epoch w (train_dl (self ls)) step e)"
  shows "early_stopping ls' = 0" "best_epoch ls' = e"
    "best_acc ls' = val_top1 (run_epoch w (train_dl (self ls)) step e)"
    "writes ls' = writes ls @ [(e, val_top1 (run_epoch w (train_dl (self ls)) step e))]"
    "\<exists>ck. saved ls' = Some ck \<and> files (self ls') = (files (self ls))(step \<mapsto> ck)
        \<and> ck_epoch ck = e
        \<and> ck_state_dict ck = state_dict (run_epoch w (train_dl (self ls)) step e)"
  using assms
  by (auto simp: epoch_body_def lr_advance_def checkpointing_def Let_def
           split: sum.splits if_splits option.splits)

lemma epoch_body_stall:
  assumes "epoch_body args w step e ls = Inr ls'"
      and "\<not> best_acc ls < val_top1 (run_epoch w (train_dl (self ls)) step e)"
  shows "early_stopping ls' = early_stopping ls + 1" "best_epoch ls' = best_epoch ls"
    "best_acc ls' = best_acc ls" "writes ls' = writes ls" "saved ls' = saved ls"
    "files (self ls') = files (self ls)"
  using assms
  by (auto simp: epoch_body_def lr_advance_def checkpointing_def Let_def
           split: sum.splits if_splits option.splits)

text \<open>Lines 85 to 87: when the body steps the scheduler.\<close>

lemma epoch_body_step:
  assumes "epoch_body args w step e ls = Inr ls'"
      and "scheduler args = ''cos'' \<and> warm_epoch args < e"
  shows "sched_steps ls' = sched_steps ls @ [e]"
    "\<exists>sc. self_scheduler (self ls) = Some sc
        \<and> self_scheduler (self ls') = Some (scheduler_step sc)"
  using assms
  by (auto simp: epoch_body_def lr_advance_def checkpointing_def Let_def
           split: sum.splits if_splits option.splits)

lemma epoch_body_no_step:
  assumes "epoch_body args w step e ls = Inr ls'"
      and "\<not> (scheduler args = ''cos'' \<and> warm_epoch args < e)"
  shows "sched_steps ls' = sched_steps ls" "self_scheduler (self ls') = self_scheduler (self ls)"
  using assms
  by (auto simp: epoch_body_def lr_advance_def checkpointing_def Let_def
           split: sum.splits if_splits option.splits)

lemma epoch_body_scheduler:
  assumes "epoch_body args w step e ls = Inr ls'" "self_scheduler (self ls) \<noteq> None"
  shows "self_scheduler (self ls') \<noteq> None"
  using assms
  by (auto simp: epoch_body_def lr_advance_def checkpointing_def Let_def
           split: sum.splits if_splits option.splits)

lemma epoch_body_total:
  assumes "self_scheduler (self ls) \<noteq> None"
  shows "\<exists>ls'. epoch_body args w step e ls = Inr ls'"
  using assms
  by (auto simp: epoch_body_def lr_advance_def checkpointing_def Let_def split: sum.splits option.splits)



text \<open>The rule for the epoch loop.\<close>

lemma epoch_loop_rule:
  assumes body: "\<And>e ls ls'. I ls \<Longrightarrow> e = int (epochs_run ls) \<Longrightarrow>
                   epoch_body args w step e ls = Inr ls' \<Longrightarrow> I ls'"
      and stop: "\<And>ls. I ls \<Longrightarrow> I (ls\<lparr>stopped := True\<rparr>)"
  shows "I ls \<Longrightarrow> es = map int [epochs_run ls..<n] \<Longrightarrow>
         epoch_loop args w step es ls = Inr lf \<Longrightarrow> I lf"
proof (induction es arbitrary: ls)
  case Nil
  then show ?case by simp
next
  case (Cons e rest)
  from Cons.prems(2) have lt: "epochs_run ls < n"
    by (cases "epochs_run ls < n") auto
  with Cons.prems(2) have e: "e = int (epochs_run ls)"
    and rest: "rest = map int [Suc (epochs_run ls)..<n]"
    by (simp_all add: upt_conv_Cons)
  from Cons.prems(3) obtain ls' where b: "epoch_body args w step e ls = Inr ls'"
    by (auto split: sum.splits)
  have I': "I ls'" using body [OF Cons.prems(1) e b] .
  have run: "epochs_run ls' = Suc (epochs_run ls)" using epoch_body_frame(1) [OF b] .
  show ?case
  proof (cases "early_stopping ls' = patience args")
    case True
    with Cons.prems(3) b have "lf = ls'\<lparr>stopped := True\<rparr>" by simp
    with stop [OF I'] show ?thesis by simp
  next
    case False
    with Cons.prems(3) b have "epoch_loop args w step rest ls' = Inr lf" by simp
    with Cons.IH [OF I'] rest run show ?thesis by simp
  qed
qed

lemma epoch_loop_total:
  "self_scheduler (self ls) \<noteq> None \<Longrightarrow> \<exists>lf. epoch_loop args w step es ls = Inr lf"
proof (induction es arbitrary: ls)
  case Nil
  then show ?case by simp
next
  case (Cons e rest)
  from epoch_body_total [OF Cons.prems] obtain ls' where
    b: "epoch_body args w step e ls = Inr ls'" by blast
  from epoch_body_scheduler [OF b Cons.prems] Cons.IH obtain lf where
    "epoch_loop args w step rest ls' = Inr lf" by blast
  with b show ?case by simp
qed

text \<open>How the loop is left.\<close>

lemma epoch_loop_exit:
  "epoch_loop args w step es ls = Inr lf \<Longrightarrow> \<not> stopped ls \<Longrightarrow>
   epochs_run lf \<le> epochs_run ls + length es
   \<and> (stopped lf \<longrightarrow> early_stopping lf = patience args \<and> epochs_run ls < epochs_run lf)
   \<and> (\<not> stopped lf \<longrightarrow> epochs_run lf = epochs_run ls + length es
        \<and> (es \<noteq> [] \<longrightarrow> early_stopping lf \<noteq> patience args))"
proof (induction es arbitrary: ls)
  case Nil
  then show ?case by simp
next
  case (Cons e rest)
  from Cons.prems(1) obtain ls' where b: "epoch_body args w step e ls = Inr ls'"
    by (auto split: sum.splits)
  note fr = epoch_body_frame(1,2) [OF b]
  show ?case
  proof (cases "early_stopping ls' = patience args")
    case True
    with Cons.prems(1) b have "lf = ls'\<lparr>stopped := True\<rparr>" by simp
    with True fr show ?thesis by simp
  next
    case False
    with Cons.prems(1) b have l: "epoch_loop args w step rest ls' = Inr lf" by simp
    from Cons.IH [OF l] fr Cons.prems(2) have ih:
      "epochs_run lf \<le> epochs_run ls' + length rest"
      "stopped lf \<longrightarrow> early_stopping lf = patience args \<and> epochs_run ls' < epochs_run lf"
      "\<not> stopped lf \<longrightarrow> epochs_run lf = epochs_run ls' + length rest
          \<and> (rest \<noteq> [] \<longrightarrow> early_stopping lf \<noteq> patience args)"
      by simp_all
    have "rest = [] \<Longrightarrow> lf = ls'" using l by simp
    with ih fr False show ?thesis by (cases "rest = []") auto
  qed
qed



subsection \<open>The invariants are kept by a body\<close>

lemma counter_inv_body:
  assumes "counter_inv ls" "e = int (epochs_run ls)" "epoch_body args w step e ls = Inr ls'"
  shows "counter_inv ls'"
proof (cases "best_acc ls < val_top1 (run_epoch w (train_dl (self ls)) step e)")
  case True
  from epoch_body_improve(1-4) [OF assms(3) True] epoch_body_frame(1) [OF assms(3)] assms(2)
  show ?thesis by (simp add: counter_inv_def)
next
  case False
  from epoch_body_stall(1-5) [OF assms(3) False] epoch_body_frame(1) [OF assms(3)] assms(1)
  show ?thesis by (auto simp: counter_inv_def)
qed

lemma improve_inv_body:
  assumes "improve_inv ls" "epoch_body args w step e ls = Inr ls'"
  shows "improve_inv ls'"
proof (cases "best_acc ls < val_top1 (run_epoch w (train_dl (self ls)) step e)")
  case True
  from epoch_body_improve(3,4) [OF assms(2) True] assms(1) True
  show ?thesis by (fastforce simp: improve_inv_def sorted_wrt_append)
next
  case False
  from epoch_body_stall(3,4) [OF assms(2) False] assms(1)
  show ?thesis by (simp add: improve_inv_def)
qed

lemma max_inv_body:
  assumes "max_inv w step ds ls" "e = int (epochs_run ls)" "epoch_body args w step e ls = Inr ls'"
  shows "max_inv w step ds ls'"
proof -
  from assms(1) have ds: "train_dl (self ls) = ds"
    and mx: "\<And>x. 0 \<le> x \<Longrightarrow> x < int (epochs_run ls) \<Longrightarrow>
               val_top1 (run_epoch w ds step x) \<le> best_acc ls"
    and wr: "\<And>x. x \<in> set (writes ls) \<Longrightarrow> 0 \<le> fst x \<and> fst x < int (epochs_run ls)
               \<and> snd x = val_top1 (run_epoch w ds step (fst x))"
    unfolding max_inv_def by blast+
  let ?v = "val_top1 (run_epoch w ds step e)"
  note fr = epoch_body_frame(1,3) [OF assms(3)]
  have acc: "best_acc ls \<le> best_acc ls'" "?v \<le> best_acc ls'"
    and w2: "writes ls' = writes ls \<or> writes ls' = writes ls @ [(e, ?v)]"
    using epoch_body_improve(3,4) [OF assms(3)] epoch_body_stall(3,4) [OF assms(3)] ds
    by (cases "best_acc ls < ?v"; simp)+
  have m: "val_top1 (run_epoch w ds step x) \<le> best_acc ls'"
    if "0 \<le> x" "x < int (epochs_run ls')" for x
  proof (cases "x = e")
    case True
    with acc show ?thesis by simp
  next
    case False
    with that fr assms(2) have "x < int (epochs_run ls)" by simp
    from mx [OF that(1) this] acc show ?thesis by simp
  qed
  have k: "0 \<le> fst x \<and> fst x < int (epochs_run ls')
           \<and> snd x = val_top1 (run_epoch w ds step (fst x))"
    if "x \<in> set (writes ls')" for x
  proof (cases "x \<in> set (writes ls)")
    case True
    from wr [OF this] fr show ?thesis by simp
  next
    case False
    with that w2 have "x = (e, ?v)" by auto
    with assms(2) fr show ?thesis by simp
  qed
  show ?thesis unfolding max_inv_def using fr(2) ds m k by simp
qed

lemma files_inv_body:
  assumes "files_inv w step ds disk ls" "epoch_body args w step e ls = Inr ls'"
  shows "files_inv w step ds disk ls'"
proof (cases "best_acc ls < val_top1 (run_epoch w (train_dl (self ls)) step e)")
  case True
  from epoch_body_improve(2,4,5) [OF assms(2) True] epoch_body_frame(3) [OF assms(2)] assms(1)
  show ?thesis by (auto simp: files_inv_def)
next
  case False
  from epoch_body_stall(2,4,5,6) [OF assms(2) False] epoch_body_frame(3) [OF assms(2)] assms(1)
  show ?thesis by (auto simp: files_inv_def split: option.splits)
qed

lemma sched_inv_body:
  assumes "sched_inv args k ls" "e = int (epochs_run ls)" "epoch_body args w step e ls = Inr ls'"
  shows "sched_inv args k ls'"
proof (cases "scheduler args = ''cos'' \<and> warm_epoch args < e")
  case True
  from epoch_body_step [OF assms(3) True] epoch_body_frame(1) [OF assms(3)] assms(1,2) True
  show ?thesis by (auto simp: sched_inv_def scheduler_step_def)
next
  case False
  from epoch_body_no_step [OF assms(3) False] epoch_body_frame(1) [OF assms(3)] assms(1,2) False
  show ?thesis by (auto simp: sched_inv_def)
qed

lemma frame_inv_body:
  assumes "frame_inv slf ls" "epoch_body args w step e ls = Inr ls'"
  shows "frame_inv slf ls'"
  using assms(1) epoch_body_frame(3-12) [OF assms(2)] by (simp add: frame_inv_def)


subsection \<open>A whole call of \<open>train_noisy\<close>\<close>

lemma init_settings_known:
  assumes "scheduler args = ''step'' \<or> scheduler args = ''cos''"
  shows "init_settings args w slf =
           Inr (slf\<lparr>self_scheduler := Some (new_scheduler
                  (if scheduler args = ''step'' then MultiStepLR else CosineAnnealingLR))\<rparr>)"
  using assms by (auto simp: init_settings_def)

lemma init_loop_invs:
  "counter_inv (init_loop slf)" "improve_inv (init_loop slf)"
  "max_inv w step (train_dl slf) (init_loop slf)"
  "files_inv w step (train_dl slf) (files slf) (init_loop slf)"
  "frame_inv slf (init_loop slf)"
  "self_scheduler slf = Some (new_scheduler k) \<Longrightarrow> sched_inv args k (init_loop slf)"
  by (simp_all add: counter_inv_def improve_inv_def max_inv_def files_inv_def frame_inv_def
        sched_inv_def init_loop_def new_scheduler_def)

lemma stopped_invs:
  "counter_inv ls \<Longrightarrow> counter_inv (ls\<lparr>stopped := True\<rparr>)"
  "improve_inv ls \<Longrightarrow> improve_inv (ls\<lparr>stopped := True\<rparr>)"
  "max_inv w step ds ls \<Longrightarrow> max_inv w step ds (ls\<lparr>stopped := True\<rparr>)"
  "files_inv w step ds disk ls \<Longrightarrow> files_inv w step ds disk (ls\<lparr>stopped := True\<rparr>)"
  "frame_inv slf ls \<Longrightarrow> frame_inv slf (ls\<lparr>stopped := True\<rparr>)"
  "sched_inv args k ls \<Longrightarrow> sched_inv args k (ls\<lparr>stopped := True\<rparr>)"
  by (auto simp: counter_inv_def improve_inv_def max_inv_def files_inv_def frame_inv_def
        sched_inv_def split: option.splits)

text \<open>
  With the step or the cosine policy \<open>train_noisy\<close> runs to the end of its loop, and the
  loop leaves all invariants in place.
\<close>

lemma train_noisy_vars_run:
  assumes "scheduler args = ''step'' \<or> scheduler args = ''cos''"
  shows "\<exists>ls. train_noisy_vars args w step slf = Inr ls
     \<and> counter_inv ls \<and> improve_inv ls \<and> max_inv w step (train_dl slf) ls
     \<and> files_inv w step (train_dl slf) (files slf) ls \<and> frame_inv slf ls
     \<and> sched_inv args (if scheduler args = ''step'' then MultiStepLR else CosineAnnealingLR) ls
     \<and> epochs_run ls \<le> nat (epochs args)
     \<and> (stopped ls \<longrightarrow> early_stopping ls = patience args \<and> 0 < epochs_run ls)
     \<and> (\<not> stopped ls \<longrightarrow> epochs_run ls = nat (epochs args)
          \<and> (0 < epochs args \<longrightarrow> early_stopping ls \<noteq> patience args))"
proof -
  let ?k = "if scheduler args = ''step'' then MultiStepLR else CosineAnnealingLR"
  let ?s1 = "slf\<lparr>student := fresh_network w, self_scheduler := Some (new_scheduler ?k)\<rparr>"
  let ?l0 = "init_loop ?s1"
  have i: "init_settings args w (slf\<lparr>student := fresh_network w\<rparr>) = Inr ?s1"
    using init_settings_known [OF assms, of w "slf\<lparr>student := fresh_network w\<rparr>"] by auto
  have "self_scheduler (self ?l0) \<noteq> None" by (simp add: init_loop_def)
  from epoch_loop_total [OF this] obtain ls where
    l: "epoch_loop args w step (py_range (epochs args)) ?l0 = Inr ls" by blast
  have r: "py_range (epochs args) = map int [epochs_run ?l0..<nat (epochs args)]"
    by (simp add: py_range_def init_loop_def)
  have s1: "train_dl ?s1 = train_dl slf" "files ?s1 = files slf" by simp_all
  have c: "counter_inv ls"
    by (rule epoch_loop_rule [where I = counter_inv, OF _ _ init_loop_invs(1) r l])
       (auto intro: counter_inv_body stopped_invs)
  have m: "improve_inv ls"
    by (rule epoch_loop_rule [where I = improve_inv, OF _ _ init_loop_invs(2) r l])
       (auto intro: improve_inv_body stopped_invs)
  have x: "max_inv w step (train_dl slf) ls"
    by (rule epoch_loop_rule [where I = "max_inv w step (train_dl slf)", OF _ _ _ r l])
       (auto intro: max_inv_body stopped_invs simp: init_loop_invs(3) [of w step ?s1, unfolded s1])
  have f: "files_inv w step (train_dl slf) (files slf) ls"
    by (rule epoch_loop_rule [where I = "files_inv w step (train_dl slf) (files slf)", OF _ _ _ r l])
       (auto intro: files_inv_body stopped_invs simp: init_loop_invs(4) [of w step ?s1, unfolded s1])
  have fr1: "frame_inv ?s1 ls"
    by (rule epoch_loop_rule [where I = "frame_inv ?s1", OF _ _ init_loop_invs(5) r l])
       (auto intro: frame_inv_body stopped_invs)
  then have fr: "frame_inv slf ls" by (simp add: frame_inv_def)
  have s: "sched_inv args ?k ls"
    by (rule epoch_loop_rule [where I = "sched_inv args ?k", OF _ _ _ r l])
       (auto intro: sched_inv_body stopped_invs init_loop_invs(6))
  have ns: "\<not> stopped ?l0" "epochs_run ?l0 = 0" by (simp_all add: init_loop_def)
  have len: "length (py_range (epochs args)) = nat (epochs args)"
    "py_range (epochs args) \<noteq> [] \<longleftrightarrow> 0 < epochs args"
    by (auto simp: py_range_def)
  from epoch_loop_exit [OF l ns(1)] ns(2) len have
    ex: "epochs_run ls \<le> nat (epochs args)"
      "stopped ls \<longrightarrow> early_stopping ls = patience args \<and> 0 < epochs_run ls"
      "\<not> stopped ls \<longrightarrow> epochs_run ls = nat (epochs args)
          \<and> (0 < epochs args \<longrightarrow> early_stopping ls \<noteq> patience args)"
    by simp_all
  have "train_noisy_vars args w step slf = Inr ls"
    using i l by (simp add: train_noisy_vars_def)
  with c m x f fr s ex show ?thesis by blast
qed

section \<open>Early stopping and checkpoints\<close>

lemma epoch_body_counter_step:
  assumes "epoch_body args w step e ls = Inr ls'"
  shows "early_stopping ls' = 0 \<or> early_stopping ls' = early_stopping ls + 1"
  using epoch_body_improve(1) [OF assms] epoch_body_stall(1) [OF assms] by blast

text \<open>With a positive patience the counter stays below it while the loop goes on.\<close>

lemma epoch_loop_below_patience:
  "epoch_loop args w step es ls = Inr lf \<Longrightarrow> 0 \<le> early_stopping ls \<Longrightarrow>
   early_stopping ls < patience args \<Longrightarrow> \<not> stopped ls \<Longrightarrow> \<not> stopped lf \<Longrightarrow>
   early_stopping lf < patience args"
proof (induction es arbitrary: ls)
  case Nil
  then show ?case by simp
next
  case (Cons e rest)
  from Cons.prems(1) obtain ls' where b: "epoch_body args w step e ls = Inr ls'"
    by (auto split: sum.splits)
  show ?case
  proof (cases "early_stopping ls' = patience args")
    case True
    with Cons.prems(1) b have "lf = ls'\<lparr>stopped := True\<rparr>" by simp
    with Cons.prems(5) show ?thesis by simp
  next
    case False
    with Cons.prems(1) b have l: "epoch_loop args w step rest ls' = Inr lf" by simp
    from epoch_body_counter_step [OF b] Cons.prems(2,3) False
    have "0 \<le> early_stopping ls'" "early_stopping ls' < patience args" by auto
    from Cons.IH [OF l this] epoch_body_frame(2) [OF b] Cons.prems(4,5) show ?thesis by simp
  qed
qed

lemma train_noisy_vars_below_patience:
  assumes "train_noisy_vars args w step slf = Inr ls" "0 < patience args" "\<not> stopped ls"
  shows "early_stopping ls < patience args"
proof -
  from assms(1) obtain s1 where
    l: "epoch_loop args w step (py_range (epochs args)) (init_loop s1) = Inr ls"
    by (auto simp: train_noisy_vars_def split: sum.splits)
  show ?thesis
    by (rule epoch_loop_below_patience [OF l _ _ _ assms(3)])
       (simp_all add: init_loop_def assms(2))
qed

text \<open>
  C7. Early stopping and checkpointing in \<open>train_noisy\<close>, for patience \<open>P\<close> and epoch
  budget \<open>E\<close>. Epochs are numbered from 0, as in the source and in the spec's scenario,
  and \<open>best_epoch\<close> is such a number. With the step or the cosine policy the call runs
  to the end of its loop, and then: it ran at most \<open>E\<close> epochs, and exactly \<open>E\<close> unless
  it stopped early; it stopped early exactly when the counter reached \<open>P\<close> after some
  epoch; the counter is the number of epochs run after \<open>best_epoch\<close>, none of which
  validated above the best, so an early stop after an improvement halts the loop after
  the epoch numbered \<open>best_epoch + P\<close>; with a positive patience a loop that used up
  its budget has seen fewer than \<open>P\<close> such epochs. Every write has a validation top-1
  strictly above the one written before it (and above 0), and a body of the loop writes
  and resets the counter to 0 exactly when the epoch's top-1 is strictly above the best
  so far, and otherwise adds one to the counter and writes nothing.
\<close>

theorem early_stopping_halts:
  assumes "scheduler args = ''step'' \<or> scheduler args = ''cos''"
  shows "\<exists>ls. train_noisy_vars args w step slf = Inr ls
     \<and> int (epochs_run ls) \<le> max 0 (epochs args)
     \<and> (\<not> stopped ls \<longrightarrow> int (epochs_run ls) = max 0 (epochs args))
     \<and> (stopped ls \<longleftrightarrow> 0 < epochs_run ls \<and> early_stopping ls = patience args)
     \<and> (\<not> stopped ls \<and> 0 < patience args \<longrightarrow> early_stopping ls < patience args)
     \<and> (writes ls \<noteq> [] \<longrightarrow>
          int (epochs_run ls) - 1 = best_epoch ls + early_stopping ls
        \<and> best_acc ls = val_top1 (run_epoch w (train_dl slf) step (best_epoch ls)))
     \<and> (stopped ls \<and> writes ls \<noteq> [] \<longrightarrow>
          int (epochs_run ls) - 1 = best_epoch ls + patience args)
     \<and> (\<forall>e. best_epoch ls < e \<and> e < int (epochs_run ls) \<longrightarrow>
          val_top1 (run_epoch w (train_dl slf) step e) \<le> best_acc ls)
     \<and> sorted_wrt (<) (map snd (writes ls))
     \<and> (\<forall>x\<in>set (writes ls). 0 < snd x
          \<and> snd x = val_top1 (run_epoch w (train_dl slf) step (fst x)))
     \<and> (\<forall>e ls0 ls1. epoch_body args w step e ls0 = Inr ls1 \<longrightarrow>
          (if best_acc ls0 < val_top1 (run_epoch w (train_dl (self ls0)) step e)
           then early_stopping ls1 = 0 \<and> best_epoch ls1 = e
              \<and> best_acc ls1 = val_top1 (run_epoch w (train_dl (self ls0)) step e)
              \<and> writes ls1 = writes ls0 @ [(e, best_acc ls1)]
           else early_stopping ls1 = early_stopping ls0 + 1 \<and> writes ls1 = writes ls0
              \<and> best_acc ls1 = best_acc ls0 \<and> best_epoch ls1 = best_epoch ls0))"
proof -
  from train_noisy_vars_run [OF assms, of w step slf] obtain ls where
    r: "train_noisy_vars args w step slf = Inr ls"
    and c: "counter_inv ls" and m: "improve_inv ls"
    and x: "max_inv w step (train_dl slf) ls"
    and ex: "epochs_run ls \<le> nat (epochs args)"
      "stopped ls \<longrightarrow> early_stopping ls = patience args \<and> 0 < epochs_run ls"
      "\<not> stopped ls \<longrightarrow> epochs_run ls = nat (epochs args)
          \<and> (0 < epochs args \<longrightarrow> early_stopping ls \<noteq> patience args)"
    by blast
  have 1: "int (epochs_run ls) \<le> max 0 (epochs args)" using ex(1) by simp
  have 2: "\<not> stopped ls \<longrightarrow> int (epochs_run ls) = max 0 (epochs args)" using ex(3) by auto
  have 3: "stopped ls \<longleftrightarrow> 0 < epochs_run ls \<and> early_stopping ls = patience args"
    using ex(2,3) by auto
  have 4: "\<not> stopped ls \<and> 0 < patience args \<longrightarrow> early_stopping ls < patience args"
    using train_noisy_vars_below_patience [OF r] by blast
  have l: "writes ls \<noteq> [] \<Longrightarrow> (best_epoch ls, best_acc ls) \<in> set (writes ls)"
    using c last_in_set [of "writes ls"] by (auto simp: counter_inv_def)
  have 5: "writes ls \<noteq> [] \<longrightarrow>
          int (epochs_run ls) - 1 = best_epoch ls + early_stopping ls
        \<and> best_acc ls = val_top1 (run_epoch w (train_dl slf) step (best_epoch ls))"
    using c l x unfolding counter_inv_def max_inv_def by fastforce
  have 6: "stopped ls \<and> writes ls \<noteq> [] \<longrightarrow>
          int (epochs_run ls) - 1 = best_epoch ls + patience args"
    using 5 ex(2) by auto
  have b0: "0 \<le> best_epoch ls" using c by (cases "writes ls = []") (auto simp: counter_inv_def)
  have 7: "\<forall>e. best_epoch ls < e \<and> e < int (epochs_run ls) \<longrightarrow>
          val_top1 (run_epoch w (train_dl slf) step e) \<le> best_acc ls"
    using x b0 unfolding max_inv_def by auto
  have 8: "sorted_wrt (<) (map snd (writes ls))" using m by (simp add: improve_inv_def)
  have 9: "\<forall>x\<in>set (writes ls). 0 < snd x
          \<and> snd x = val_top1 (run_epoch w (train_dl slf) step (fst x))"
    using m x unfolding improve_inv_def max_inv_def by blast
  have 10: "\<forall>e ls0 ls1. epoch_body args w step e ls0 = Inr ls1 \<longrightarrow>
          (if best_acc ls0 < val_top1 (run_epoch w (train_dl (self ls0)) step e)
           then early_stopping ls1 = 0 \<and> best_epoch ls1 = e
              \<and> best_acc ls1 = val_top1 (run_epoch w (train_dl (self ls0)) step e)
              \<and> writes ls1 = writes ls0 @ [(e, best_acc ls1)]
           else early_stopping ls1 = early_stopping ls0 + 1 \<and> writes ls1 = writes ls0
              \<and> best_acc ls1 = best_acc ls0 \<and> best_epoch ls1 = best_epoch ls0)"
  proof (intro allI impI)
    fix e ls0 ls1
    assume b: "epoch_body args w step e ls0 = Inr ls1"
    show "if best_acc ls0 < val_top1 (run_epoch w (train_dl (self ls0)) step e)
           then early_stopping ls1 = 0 \<and> best_epoch ls1 = e
              \<and> best_acc ls1 = val_top1 (run_epoch w (train_dl (self ls0)) step e)
              \<and> writes ls1 = writes ls0 @ [(e, best_acc ls1)]
           else early_stopping ls1 = early_stopping ls0 + 1 \<and> writes ls1 = writes ls0
              \<and> best_acc ls1 = best_acc ls0 \<and> best_epoch ls1 = best_epoch ls0"
    proof (cases "best_acc ls0 < val_top1 (run_epoch w (train_dl (self ls0)) step e)")
      case True
      from epoch_body_improve(1-4) [OF b True] True show ?thesis by simp
    next
      case False
      from epoch_body_stall(1-4) [OF b False] False show ?thesis by simp
    qed
  qed
  from r 1 2 3 4 5 6 7 8 9 10 show ?thesis by blast
qed

theorem early_stopping_halts_witness:
  "(scheduler scenario_args = ''step'' \<or> scheduler scenario_args = ''cos'')
   \<and> map_sum id (\<lambda>ls. (best_epoch ls, epochs_run ls, stopped ls, early_stopping ls, writes ls))
       (train_noisy_vars scenario_args scenario_world 0 scenario_trainer)
     = Inr (1, 4, True, patience scenario_args, [(0, 1 / 2), (1, 3 / 5)])"
proof -
  have h: "scheduler scenario_args = ''step'' \<or> scheduler scenario_args = ''cos''"
    by (simp add: scenario_args_def)
  have e: "map_sum id (\<lambda>ls. (best_epoch ls, epochs_run ls, stopped ls, writes ls))
       (train_noisy_vars scenario_args scenario_world 0 scenario_trainer)
     = Inr (1, 4, True, [(0, 1 / 2), (1, 3 / 5)])"
    by code_simp
  from early_stopping_halts [OF h, of scenario_world 0 scenario_trainer] obtain ls where
    r: "train_noisy_vars scenario_args scenario_world 0 scenario_trainer = Inr ls"
    and s: "stopped ls \<longleftrightarrow> 0 < epochs_run ls \<and> early_stopping ls = patience scenario_args"
    by blast
  from e r have "best_epoch ls = 1" "epochs_run ls = 4" "stopped ls"
    "writes ls = [(0, 1 / 2), (1, 3 / 5)]" by simp_all
  with s r h show ?thesis by simp
qed

text \<open>
  C3. A round whose validation top-1 is 0 in every epoch writes no checkpoint: 0 is not
  strictly above the initial \<open>best_acc = 0\<close> of line 79. With five epochs allowed and
  patience two, the loop stops after two epochs, nothing was saved, the round's file
  does not exist, and \<open>train\<close> fails at \<open>torch.load\<close> of line 65.
\<close>

theorem zero_accuracy_round_writes_no_checkpoint:
  "map_sum id (\<lambda>ls. (epochs_run ls, stopped ls, saved ls, files (self ls) 0))
       (train_noisy_vars scenario_args zero_world 0 zero_trainer)
     = Inr (2, True, None, None)
   \<and> map_sum id (\<lambda>s. ()) (train scenario_args zero_world zero_trainer)
     = Inl (FileNotFoundError 0)"
  by code_simp

section \<open>The learning-rate scheduler\<close>

text \<open>
  C4. The claim has the scheduler of every policy advanced in every epoch, the cosine
  one after its warm-up. The code does not do so for the step policy: \<open>init_settings\<close>
  builds a \<open>MultiStepLR\<close>, and a round of four epochs never calls \<open>step()\<close> on it; the
  scheduler is left as it was built. The only call of \<open>scheduler.step()\<close>, lines 85 to
  87, is made under the cosine policy.
\<close>

theorem step_policy_scheduler_never_advanced:
  "map_sum id (\<lambda>ls. (epochs_run ls, sched_steps ls, self_scheduler (self ls)))
       (train_noisy_vars (scenario_args\<lparr>scheduler := ''step''\<rparr>) scenario_world 0
          scenario_trainer)
     = Inr (4, [], Some \<lparr>kind = MultiStepLR, last_epoch = 0\<rparr>)"
  by code_simp

text \<open>The step policy in general: no round ever advances its scheduler.\<close>

lemma step_policy_never_steps:
  assumes "scheduler args = ''step''"
  shows "\<exists>ls. train_noisy_vars args w step slf = Inr ls \<and> sched_steps ls = []
     \<and> self_scheduler (self ls) = Some \<lparr>kind = MultiStepLR, last_epoch = 0\<rparr>"
proof -
  from assms have v: "scheduler args = ''step'' \<or> scheduler args = ''cos''" by simp
  from train_noisy_vars_run [OF v, of w step slf] assms obtain ls where
    r: "train_noisy_vars args w step slf = Inr ls"
    and s: "sched_inv args MultiStepLR ls"
    by auto
  from s assms have "sched_steps ls = []" by (simp add: sched_inv_def)
  with s r show ?thesis by (auto simp: sched_inv_def)
qed

text \<open>
  The cosine policy, the one path that does step: the scheduler is advanced once in
  every epoch whose number is strictly greater than \<open>warm_epoch\<close> and in no other epoch.
  A body of the loop steps it exactly then, and after the round the epochs with a step
  are those among the epochs run that exceed \<open>warm_epoch\<close>, the scheduler having
  counted them.
\<close>

lemma cosine_scheduler_advance:
  assumes "scheduler args = ''cos''"
  shows "\<exists>ls. train_noisy_vars args w step slf = Inr ls
     \<and> sched_steps ls = filter (\<lambda>e. warm_epoch args < e) (py_range (int (epochs_run ls)))
     \<and> self_scheduler (self ls)
         = Some \<lparr>kind = CosineAnnealingLR, last_epoch = length (sched_steps ls)\<rparr>
     \<and> (\<forall>e ls0 ls1. epoch_body args w step e ls0 = Inr ls1 \<longrightarrow>
          (if warm_epoch args < e
           then sched_steps ls1 = sched_steps ls0 @ [e]
              \<and> (\<exists>sc. self_scheduler (self ls0) = Some sc
                    \<and> self_scheduler (self ls1) = Some (scheduler_step sc))
           else sched_steps ls1 = sched_steps ls0
              \<and> self_scheduler (self ls1) = self_scheduler (self ls0)))"
proof -
  from assms have v: "scheduler args = ''step'' \<or> scheduler args = ''cos''" by simp
  from train_noisy_vars_run [OF v, of w step slf] assms obtain ls where
    r: "train_noisy_vars args w step slf = Inr ls"
    and s: "sched_inv args CosineAnnealingLR ls"
    by auto
  have 1: "sched_steps ls = filter (\<lambda>e. warm_epoch args < e) (py_range (int (epochs_run ls)))"
    using s assms by (simp add: sched_inv_def py_range_def)
  have 2: "self_scheduler (self ls)
         = Some \<lparr>kind = CosineAnnealingLR, last_epoch = length (sched_steps ls)\<rparr>"
    using s by (simp add: sched_inv_def)
  have 3: "\<forall>e ls0 ls1. epoch_body args w step e ls0 = Inr ls1 \<longrightarrow>
          (if warm_epoch args < e
           then sched_steps ls1 = sched_steps ls0 @ [e]
              \<and> (\<exists>sc. self_scheduler (self ls0) = Some sc
                    \<and> self_scheduler (self ls1) = Some (scheduler_step sc))
           else sched_steps ls1 = sched_steps ls0
              \<and> self_scheduler (self ls1) = self_scheduler (self ls0))"
  proof (intro allI impI)
    fix e ls0 ls1
    assume b: "epoch_body args w step e ls0 = Inr ls1"
    show "if warm_epoch args < e
           then sched_steps ls1 = sched_steps ls0 @ [e]
              \<and> (\<exists>sc. self_scheduler (self ls0) = Some sc
                    \<and> self_scheduler (self ls1) = Some (scheduler_step sc))
           else sched_steps ls1 = sched_steps ls0
              \<and> self_scheduler (self ls1) = self_scheduler (self ls0)"
    proof (cases "warm_epoch args < e")
      case True
      with assms have t: "scheduler args = ''cos'' \<and> warm_epoch args < e" by simp
      from epoch_body_step [OF b t] True show ?thesis by simp
    next
      case False
      then have f: "\<not> (scheduler args = ''cos'' \<and> warm_epoch args < e)" by simp
      from epoch_body_no_step [OF b f] False show ?thesis by simp
    qed
  qed
  from r 1 2 3 show ?thesis by blast
qed

lemma cosine_scheduler_advance_scenario:
  "scheduler scenario_args = ''cos''
   \<and> map_sum id (\<lambda>ls. (epochs_run ls, sched_steps ls))
       (train_noisy_vars scenario_args scenario_world 0 scenario_trainer)
     = Inr (4, filter (\<lambda>e. warm_epoch scenario_args < e) (py_range 4))"
proof -
  have h: "scheduler scenario_args = ''cos''" by (simp add: scenario_args_def)
  have e: "map_sum id epochs_run
       (train_noisy_vars scenario_args scenario_world 0 scenario_trainer) = Inr 4"
    by code_simp
  from cosine_scheduler_advance [OF h, of scenario_world 0 scenario_trainer] obtain ls where
    r: "train_noisy_vars scenario_args scenario_world 0 scenario_trainer = Inr ls"
    and s: "sched_steps ls
          = filter (\<lambda>e. warm_epoch scenario_args < e) (py_range (int (epochs_run ls)))"
    by blast
  from e r have "epochs_run ls = 4" by simp
  with s r h show ?thesis by simp
qed

text \<open>
  C5. Selecting the one-cycle policy makes \<open>init_settings\<close> evaluate the name
  \<open>iter_per_epoch\<close>, which nothing in the file binds: the call raises, and so does the
  first round of \<open>train\<close>.
\<close>

theorem one_cycle_policy_raises_name_error:
  "init_settings (scenario_args\<lparr>scheduler := ''cycle''\<rparr>) scenario_world scenario_trainer
     = Inl (NameError ''iter_per_epoch'')
   \<and> train (scenario_args\<lparr>scheduler := ''cycle''\<rparr>) scenario_world scenario_trainer
     = Inl (NameError ''iter_per_epoch'')"
proof -
  have i: "init_settings (scenario_args\<lparr>scheduler := ''cycle''\<rparr>) scenario_world slf
     = Inl (NameError ''iter_per_epoch'')" for slf :: "(nat, int \<times> int) trainer"
    by (simp add: init_settings_def scenario_args_def scenario_world_def table_world_def)
  have r: "py_range (steps scenario_args) = [0, 1]"
    by code_simp
  show ?thesis
    by (simp add: i r train_def train_noisy_def train_noisy_vars_def)
qed

lemma init_settings_step_cos:
  "scheduler args = ''step'' \<Longrightarrow>
     init_settings args w slf = Inr (slf\<lparr>self_scheduler := Some (new_scheduler MultiStepLR)\<rparr>)"
  "scheduler args = ''cos'' \<Longrightarrow>
     init_settings args w slf
       = Inr (slf\<lparr>self_scheduler := Some (new_scheduler CosineAnnealingLR)\<rparr>)"
  "scheduler args = ''cycle'' \<Longrightarrow> iter_per_epoch w = Some n \<Longrightarrow>
     init_settings args w slf = Inr (slf\<lparr>self_scheduler := Some (new_scheduler OneCycleLR)\<rparr>)"
  by (simp_all add: init_settings_def)

section \<open>The orchestrator\<close>

subsection \<open>Which errors can arise where\<close>

lemma epoch_body_error:
  "epoch_body args w step e ls = Inl err \<Longrightarrow> err = AttributeError ''scheduler''"
  by (auto simp: epoch_body_def lr_advance_def checkpointing_def Let_def
           split: sum.splits if_splits option.splits)

lemma epoch_loop_error:
  "epoch_loop args w step es ls = Inl err \<Longrightarrow> err = AttributeError ''scheduler''"
proof (induction es arbitrary: ls)
  case Nil
  then show ?case by simp
next
  case (Cons e rest)
  then show ?case
    by (auto split: sum.splits if_splits dest: epoch_body_error)
qed

lemma train_noisy_error:
  "train_noisy args w step slf = Inl err \<Longrightarrow>
   err = AttributeError ''scheduler'' \<or> err = NameError ''iter_per_epoch''"
  by (auto simp: train_noisy_def train_noisy_vars_def init_settings_def
           split: sum.splits if_splits option.splits dest: epoch_loop_error)

lemma for_steps_error:
  "for_steps args w rs slf = Inl err \<Longrightarrow> err \<noteq> UnboundLocalError x"
proof (induction rs arbitrary: slf)
  case Nil
  then show ?case by simp
next
  case (Cons r rest)
  then show ?case
    by (auto simp: load_teacher_def split: sum.splits option.splits dest: train_noisy_error)
qed

text \<open>
  C10. With a round count of 0 (or below) the loop of \<open>train\<close> has no iteration, the
  name \<open>step\<close> of line 68 is unbound and \<open>train\<close> fails with an unbound-variable error
  instead of running the final training pass. With a positive round count that error
  cannot arise.
\<close>

theorem train_without_rounds_unbound_step:
  "(steps args \<le> 0 \<longrightarrow> train args w slf = Inl (UnboundLocalError ''step''))
   \<and> (0 < steps args \<longrightarrow> (\<forall>x. train args w slf \<noteq> Inl (UnboundLocalError x)))"
proof (intro conjI impI allI)
  assume "steps args \<le> 0"
  then show "train args w slf = Inl (UnboundLocalError ''step'')"
    by (simp add: train_def py_range_def)
next
  fix x
  assume p: "0 < steps args"
  then have ne: "py_range (steps args) \<noteq> []" by (auto simp: py_range_def)
  show "train args w slf \<noteq> Inl (UnboundLocalError x)"
  proof
    assume t: "train args w slf = Inl (UnboundLocalError x)"
    show False
    proof (cases "for_steps args w (py_range (steps args)) slf")
      case (Inl err)
      with t have "err = UnboundLocalError x" by (simp add: train_def)
      with for_steps_error [OF Inl, of x] show False by simp
    next
      case (Inr s1)
      with t ne have "train_noisy args w (last (py_range (steps args)) + 1) s1
                      = Inl (UnboundLocalError x)"
        by (simp add: train_def)
      from train_noisy_error [OF this] show False by simp
    qed
  qed
qed

theorem train_without_rounds_unbound_step_witness:
  "steps (scenario_args\<lparr>steps := 0\<rparr>) \<le> 0
   \<and> train (scenario_args\<lparr>steps := 0\<rparr>) scenario_world scenario_trainer
       = Inl (UnboundLocalError ''step'')
   \<and> 0 < steps scenario_args
   \<and> train scenario_args scenario_world scenario_trainer \<noteq> Inl (UnboundLocalError ''step'')"
proof -
  have h: "steps (scenario_args\<lparr>steps := 0\<rparr>) \<le> 0" by simp
  have g: "0 < steps scenario_args" by (simp add: scenario_args_def)
  show ?thesis
    using h g
      train_without_rounds_unbound_step
        [of "scenario_args\<lparr>steps := 0\<rparr>" scenario_world scenario_trainer]
      train_without_rounds_unbound_step [of scenario_args scenario_world scenario_trainer]
    by blast
qed

section \<open>Whole runs of \<open>train\<close>\<close>

text \<open>
  A call of \<open>train_noisy\<close> whose first epoch validates above 0 leaves a checkpoint in its
  round's file, and that checkpoint is the round's best.
\<close>

lemma train_noisy_ok:
  assumes v: "scheduler args = ''step'' \<or> scheduler args = ''cos''"
      and e: "1 \<le> epochs args"
      and p: "0 < val_top1 (run_epoch w (train_dl slf) step 0)"
  shows "\<exists>s1 n c. train_noisy args w step slf = Inr s1
     \<and> trace s1 = trace slf @ [Trained step (train_dl slf) n (Some c)]
     \<and> files s1 step = Some c \<and> round_best w step (train_dl slf) n c
     \<and> train_dl s1 = train_dl slf \<and> train_ds s1 = train_ds slf
     \<and> unlabel_ds s1 = unlabel_ds slf"
proof -
  from train_noisy_vars_run [OF v, of w step slf] obtain ls where
    r: "train_noisy_vars args w step slf = Inr ls"
    and c: "counter_inv ls" and x: "max_inv w step (train_dl slf) ls"
    and f: "files_inv w step (train_dl slf) (files slf) ls" and fr: "frame_inv slf ls"
    and ex: "stopped ls \<longrightarrow> early_stopping ls = patience args \<and> 0 < epochs_run ls"
      "\<not> stopped ls \<longrightarrow> epochs_run ls = nat (epochs args)
          \<and> (0 < epochs args \<longrightarrow> early_stopping ls \<noteq> patience args)"
    by blast
  from ex e have n0: "0 < epochs_run ls" by (cases "stopped ls") auto
  from x n0 have "val_top1 (run_epoch w (train_dl slf) step 0) \<le> best_acc ls"
    unfolding max_inv_def by simp
  with p have bp: "0 < best_acc ls" by simp
  with c have wr: "writes ls \<noteq> []" by (auto simp: counter_inv_def)
  with f obtain ck where ck: "saved ls = Some ck" "files (self ls) step = Some ck"
    "ck_epoch ck = best_epoch ls"
    "ck_state_dict ck = state_dict (run_epoch w (train_dl slf) step (best_epoch ls))"
    by (auto simp: files_inv_def split: option.splits)
  from c wr have be: "0 \<le> best_epoch ls" "best_epoch ls < int (epochs_run ls)"
    and la: "last (writes ls) = (best_epoch ls, best_acc ls)"
    by (auto simp: counter_inv_def)
  from la wr have "(best_epoch ls, best_acc ls) \<in> set (writes ls)"
    using last_in_set [of "writes ls"] by simp
  with x have ba: "best_acc ls = val_top1 (run_epoch w (train_dl slf) step (best_epoch ls))"
    unfolding max_inv_def by fastforce
  have rb: "round_best w step (train_dl slf) (epochs_run ls) ck"
    using x be ck(3,4) ba unfolding round_best_def max_inv_def by simp
  let ?s1 = "(self ls)\<lparr>trace := trace (self ls) @
                 [Trained step (train_dl (self ls)) (epochs_run ls) (saved ls)]\<rparr>"
  have t: "train_noisy args w step slf = Inr ?s1" using r by (simp add: train_noisy_def)
  have "trace ?s1 = trace slf @ [Trained step (train_dl slf) (epochs_run ls) (Some ck)]"
    "files ?s1 step = Some ck" "train_dl ?s1 = train_dl slf" "train_ds ?s1 = train_ds slf"
    "unlabel_ds ?s1 = unlabel_ds slf"
    using fr ck(1,2) by (simp_all add: frame_inv_def)
  with t rb show ?thesis by blast
qed

lemma CIFAR10_pseudo_zip:
  "CIFAR10_pseudo pool (map fst (zip is ls)) (map snd (zip is ls)) = CIFAR10_pseudo pool is ls"
  by (simp add: CIFAR10_pseudo_def zip_map_fst_snd)

text \<open>One iteration of the loop of \<open>train\<close>.\<close>

lemma round_ok:
  assumes v: "scheduler args = ''step'' \<or> scheduler args = ''cos''"
      and e: "1 \<le> epochs args"
      and p: "0 < val_top1 (run_epoch w (train_dl slf) r 0)"
  shows "\<exists>s1 s2 n c. train_noisy args w r slf = Inr s1 \<and> load_teacher r s1 = Inr s2
     \<and> round_best w r (train_dl slf) n c
     \<and> trace (get_pseudo_label args w s2)
         = trace slf @ round_events (r, train_dl slf, n, c,
                          accepted args w (ck_state_dict c) (unlabel_ds slf))
     \<and> train_dl (get_pseudo_label args w s2)
         = train_ds slf @ CIFAR10_pseudo (unlabel_ds slf)
             (map fst (accepted args w (ck_state_dict c) (unlabel_ds slf)))
             (map snd (accepted args w (ck_state_dict c) (unlabel_ds slf)))
     \<and> train_ds (get_pseudo_label args w s2) = train_ds slf
     \<and> unlabel_ds (get_pseudo_label args w s2) = unlabel_ds slf"
proof -
  from train_noisy_ok [OF v e p] obtain s1 n c where
    t: "train_noisy args w r slf = Inr s1"
    and tr: "trace s1 = trace slf @ [Trained r (train_dl slf) n (Some c)]"
    and fi: "files s1 r = Some c" and rb: "round_best w r (train_dl slf) n c"
    and fr: "train_ds s1 = train_ds slf" "unlabel_ds s1 = unlabel_ds slf"
    by blast
  let ?s2 = "s1\<lparr>teacher := ck_state_dict c, trace := trace s1 @ [Loaded r (ck_state_dict c)]\<rparr>"
  have l: "load_teacher r s1 = Inr ?s2" using fi by (simp add: load_teacher_def)
  have "trace (get_pseudo_label args w ?s2)
         = trace slf @ round_events (r, train_dl slf, n, c,
                          accepted args w (ck_state_dict c) (unlabel_ds slf))"
    using tr fr by (simp add: get_pseudo_label_fields accepted_def)
  moreover have "train_dl (get_pseudo_label args w ?s2)
         = train_ds slf @ CIFAR10_pseudo (unlabel_ds slf)
             (map fst (accepted args w (ck_state_dict c) (unlabel_ds slf)))
             (map snd (accepted args w (ck_state_dict c) (unlabel_ds slf)))"
    using fr unfolding accepted_def CIFAR10_pseudo_zip by (simp add: get_pseudo_label_fields)
  moreover have "train_ds (get_pseudo_label args w ?s2) = train_ds slf"
    "unlabel_ds (get_pseudo_label args w ?s2) = unlabel_ds slf"
    using fr by (simp_all add: get_pseudo_label_fields)
  ultimately show ?thesis using t l rb by blast
qed

text \<open>The loop of \<open>train\<close> over any list of rounds.\<close>

lemma for_steps_run:
  assumes v: "scheduler args = ''step'' \<or> scheduler args = ''cos''"
      and e: "1 \<le> epochs args"
      and p: "\<And>ds st. 0 < val_top1 (run_epoch w ds st 0)"
  shows "\<exists>s' info. for_steps args w rs slf = Inr s' \<and> length info = length rs
     \<and> trace s' = trace slf @ concat (map round_events (zip rs info))
     \<and> chain args w (train_ds slf) (unlabel_ds slf) (train_dl slf) info (train_dl s')
     \<and> (\<forall>x\<in>set (zip rs info). case x of (r, d, n, c, a) \<Rightarrow> round_best w r d n c)
     \<and> train_ds s' = train_ds slf \<and> unlabel_ds s' = unlabel_ds slf"
proof (induction rs arbitrary: slf)
  case Nil
  show ?case by (rule exI [of _ slf], rule exI [of _ "[]"]) simp
next
  case (Cons r rest)
  from round_ok [OF v e p, where slf = slf and r = r] obtain s1 s2 n c where
    t: "train_noisy args w r slf = Inr s1" and l: "load_teacher r s1 = Inr s2"
    and rb: "round_best w r (train_dl slf) n c"
    and tr: "trace (get_pseudo_label args w s2)
         = trace slf @ round_events (r, train_dl slf, n, c,
                          accepted args w (ck_state_dict c) (unlabel_ds slf))"
    and dl: "train_dl (get_pseudo_label args w s2)
         = train_ds slf @ CIFAR10_pseudo (unlabel_ds slf)
             (map fst (accepted args w (ck_state_dict c) (unlabel_ds slf)))
             (map snd (accepted args w (ck_state_dict c) (unlabel_ds slf)))"
    and fr: "train_ds (get_pseudo_label args w s2) = train_ds slf"
      "unlabel_ds (get_pseudo_label args w s2) = unlabel_ds slf"
    by blast
  let ?s3 = "get_pseudo_label args w s2"
  let ?a = "accepted args w (ck_state_dict c) (unlabel_ds slf)"
  from Cons.IH [of ?s3] obtain s' info where
    f: "for_steps args w rest ?s3 = Inr s'" and len: "length info = length rest"
    and tr': "trace s' = trace ?s3 @ concat (map round_events (zip rest info))"
    and ch: "chain args w (train_ds ?s3) (unlabel_ds ?s3) (train_dl ?s3) info (train_dl s')"
    and bs: "\<forall>x\<in>set (zip rest info). case x of (r, d, n, c, a) \<Rightarrow> round_best w r d n c"
    and fr': "train_ds s' = train_ds ?s3" "unlabel_ds s' = unlabel_ds ?s3"
    by blast
  let ?info = "(train_dl slf, n, c, ?a) # info"
  have 1: "for_steps args w (r # rest) slf = Inr s'" using t l f by simp
  have 2: "length ?info = length (r # rest)" using len by simp
  have 3: "trace s' = trace slf @ concat (map round_events (zip (r # rest) ?info))"
    using tr tr' by simp
  have 4: "chain args w (train_ds slf) (unlabel_ds slf) (train_dl slf) ?info (train_dl s')"
    using ch fr dl by simp
  have 5: "\<forall>x\<in>set (zip (r # rest) ?info). case x of (r, d, n, c, a) \<Rightarrow> round_best w r d n c"
    using bs rb by simp
  have 6: "train_ds s' = train_ds slf" "unlabel_ds s' = unlabel_ds slf"
    using fr fr' by simp_all
  from 1 2 3 4 5 6 show ?case by blast
qed

lemma last_py_range: "1 \<le> n \<Longrightarrow> py_range n \<noteq> [] \<and> last (py_range n) + 1 = n"
proof -
  assume "1 \<le> n"
  then obtain k where k: "nat n = Suc k" by (cases "nat n") auto
  then show ?thesis by (simp add: py_range_def)
qed

text \<open>A whole call of \<open>train\<close>.\<close>

lemma train_run:
  assumes v: "scheduler args = ''step'' \<or> scheduler args = ''cos''"
      and e: "1 \<le> epochs args"
      and p: "\<And>ds st. 0 < val_top1 (run_epoch w ds st 0)"
      and s: "1 \<le> steps args"
  shows "\<exists>s' info d n c. train args w slf = Inr s' \<and> length info = nat (steps args)
     \<and> trace s' = trace slf @ concat (map round_events (zip (py_range (steps args)) info))
                     @ [Trained (steps args) d n (Some c)]
     \<and> chain args w (train_ds slf) (unlabel_ds slf) (train_dl slf) info d
     \<and> (\<forall>x\<in>set (zip (py_range (steps args)) info).
           case x of (r, d, n, c, a) \<Rightarrow> round_best w r d n c)
     \<and> round_best w (steps args) d n c"
proof -
  from for_steps_run [OF v e p, of "py_range (steps args)" slf] obtain s1 info where
    f: "for_steps args w (py_range (steps args)) slf = Inr s1"
    and len: "length info = length (py_range (steps args))"
    and tr: "trace s1 = trace slf @ concat (map round_events (zip (py_range (steps args)) info))"
    and ch: "chain args w (train_ds slf) (unlabel_ds slf) (train_dl slf) info (train_dl s1)"
    and bs: "\<forall>x\<in>set (zip (py_range (steps args)) info).
           case x of (r, d, n, c, a) \<Rightarrow> round_best w r d n c"
    by blast
  from train_noisy_ok [OF v e p, where slf = s1 and step = "steps args"] obtain s' n c where
    t: "train_noisy args w (steps args) s1 = Inr s'"
    and tr': "trace s' = trace s1 @ [Trained (steps args) (train_dl s1) n (Some c)]"
    and rb: "round_best w (steps args) (train_dl s1) n c"
    by blast
  from last_py_range [OF s] f t have 1: "train args w slf = Inr s'"
    by (simp add: train_def Let_def)
  have 2: "length info = nat (steps args)" using len by (simp add: py_range_def)
  from 1 2 tr tr' ch bs rb show ?thesis by auto
qed

lemma chain_nth:
  "chain args w lab pool d0 info dfin \<Longrightarrow>
   round_sets info dfin ! 0 = d0
   \<and> (\<forall>k<length info.
        round_accepted info ! k
          = accepted args w (ck_state_dict (round_checkpoints info ! k)) pool
      \<and> round_sets info dfin ! Suc k
          = lab @ CIFAR10_pseudo pool (map fst (round_accepted info ! k))
                    (map snd (round_accepted info ! k)))"
proof (induction info arbitrary: d0)
  case Nil
  then show ?case by (simp add: round_sets_def)
next
  case (Cons i info)
  obtain d n c a where i: "i = (d, n, c, a)" by (cases i) auto
  from Cons.prems i have d: "d = d0" and a: "a = accepted args w (ck_state_dict c) pool"
    and ch: "chain args w lab pool (lab @ CIFAR10_pseudo pool (map fst a) (map snd a)) info dfin"
    by auto
  from Cons.IH [OF ch] have
    h0: "round_sets info dfin ! 0 = lab @ CIFAR10_pseudo pool (map fst a) (map snd a)"
    and hk: "\<And>k. k < length info \<Longrightarrow>
        round_accepted info ! k
          = accepted args w (ck_state_dict (round_checkpoints info ! k)) pool
      \<and> round_sets info dfin ! Suc k
          = lab @ CIFAR10_pseudo pool (map fst (round_accepted info ! k))
                    (map snd (round_accepted info ! k))"
    by blast+
  have rs: "round_sets (i # info) dfin = d # round_sets info dfin"
    "round_accepted (i # info) = a # round_accepted info"
    "round_checkpoints (i # info) = c # round_checkpoints info"
    by (simp_all add: round_sets_def round_accepted_def round_checkpoints_def i)
  show ?case
  proof (intro conjI allI impI)
    show "round_sets (i # info) dfin ! 0 = d0" using d rs by simp
  next
    fix k assume k: "k < length (i # info)"
    show "round_accepted (i # info) ! k
          = accepted args w (ck_state_dict (round_checkpoints (i # info) ! k)) pool"
      using k hk a rs by (cases k) simp_all
    show "round_sets (i # info) dfin ! Suc k
          = lab @ CIFAR10_pseudo pool (map fst (round_accepted (i # info) ! k))
                    (map snd (round_accepted (i # info) ! k))"
      using k hk h0 rs by (cases k) simp_all
  qed
qed

lemma length_CIFAR10_pseudo:
  "length (CIFAR10_pseudo pool (map fst a) (map snd a)) = length a"
  by (simp add: CIFAR10_pseudo_def)

text \<open>
  C8. The claim has every labelling pass use the best checkpoint of its own round. It
  holds in the runs of lemma \<open>train_run\<close>, where every round writes a checkpoint. Where
  a round writes none, the code does not do this: in the run below round 0 validates at
  0 in both epochs it runs and saves nothing, line 65 then loads the file that an
  earlier run left, the labelling pass runs with those old parameters \<open>(9, 9)\<close> and
  accepts the whole pool, and the final pass trains on the pseudo-labels of that
  teacher. \<open>train\<close> returns normally.
\<close>

theorem stale_checkpoint_becomes_teacher:
  "map_sum id trace (train stale_args stale_world stale_trainer)
     = Inr [Trained 0 [(100, 3), (101, 5)] 2 None,
            Loaded 0 (9, 9),
            Labelled (9, 9) [(0, 0), (1, 1), (2, 2)],
            Trained 1 [(100, 3), (101, 5), (0, 0), (1, 1), (2, 2)] 2 None]"
  by code_simp

text \<open>
  C1, as stated, fails. In the scenario the teacher of round 0 accepts the pool
  positions 0, 2, 4 and 7 and the teacher of round 1 accepts none: round 1 trains on six
  examples, round 2 on the two labelled ones again. The training set shrank, and the
  four pseudo-labels accepted in round 0 are gone.
\<close>

theorem training_set_shrinks_after_weaker_teacher:
  "map_sum id (trained_sets \<circ> trace) (train scenario_args scenario_world scenario_trainer)
     = Inr [(0, [(100, 3), (101, 5)]),
            (1, [(100, 3), (101, 5), (0, 0), (2, 2), (4, 4), (7, 7)]),
            (2, [(100, 3), (101, 5)])]
   \<and> \<not> length [(100 :: nat, 3 :: nat), (101, 5), (0, 0), (2, 2), (4, 4), (7, 7)]
        \<le> length [(100 :: nat, 3 :: nat), (101, 5)]"
  by code_simp

text \<open>
  C1, amended. Take a run of \<open>R \<ge> 1\<close> rounds with the step or the cosine policy, at
  least one epoch per round and a first epoch that validates above 0 in every round
  (so that every round writes its checkpoint), starting with the training loader on
  the labelled set. \<open>train\<close> returns, and: round 0 trains on the labelled set; for every round \<open>k < R\<close>, the pairs accepted
  in round \<open>k\<close> are those of round \<open>k\<close>'s checkpoint on the pool, and the round after
  it (the final pass for \<open>k = R - 1\<close>) trains on the labelled set followed by exactly
  these pairs materialised, so its size is the size of the labelled set plus the number
  of pairs accepted in round \<open>k\<close>. Line 150 concatenates \<open>self.train_ds\<close>, which is
  never reassigned, with the new partition: the labelled examples are never removed,
  and pseudo-labels of an earlier round stay only if the latest teacher accepts them
  again.
\<close>

theorem training_set_is_labelled_plus_latest_pseudo:
  assumes "scheduler args = ''step'' \<or> scheduler args = ''cos''"
      and "1 \<le> epochs args"
      and "\<forall>ds st. 0 < val_top1 (run_epoch w ds st 0)"
      and "1 \<le> steps args"
      and "train_dl slf = train_ds slf"
  shows "\<exists>s' info d n c. train args w slf = Inr s' \<and> length info = nat (steps args)
     \<and> trace s' = trace slf @ concat (map round_events (zip (py_range (steps args)) info))
                     @ [Trained (steps args) d n (Some c)]
     \<and> round_sets info d ! 0 = train_ds slf
     \<and> (\<forall>k<length info.
          round_accepted info ! k
            = accepted args w (ck_state_dict (round_checkpoints info ! k)) (unlabel_ds slf)
        \<and> round_sets info d ! Suc k
            = train_ds slf @ CIFAR10_pseudo (unlabel_ds slf)
                (map fst (round_accepted info ! k)) (map snd (round_accepted info ! k))
        \<and> length (round_sets info d ! Suc k)
            = length (train_ds slf) + length (round_accepted info ! k))"
proof -
  from assms(3) have p: "\<And>ds st. 0 < val_top1 (run_epoch w ds st 0)" by blast
  from train_run [OF assms(1,2) p assms(4), of slf] obtain s' info d n c where
    t: "train args w slf = Inr s'" "length info = nat (steps args)"
      "trace s' = trace slf @ concat (map round_events (zip (py_range (steps args)) info))
                     @ [Trained (steps args) d n (Some c)]"
    and ch: "chain args w (train_ds slf) (unlabel_ds slf) (train_dl slf) info d"
    by blast
  note cn = chain_nth [OF ch]
  have 0: "round_sets info d ! 0 = train_ds slf" using cn assms(5) by simp
  have k: "\<forall>k<length info.
          round_accepted info ! k
            = accepted args w (ck_state_dict (round_checkpoints info ! k)) (unlabel_ds slf)
        \<and> round_sets info d ! Suc k
            = train_ds slf @ CIFAR10_pseudo (unlabel_ds slf)
                (map fst (round_accepted info ! k)) (map snd (round_accepted info ! k))
        \<and> length (round_sets info d ! Suc k)
            = length (train_ds slf) + length (round_accepted info ! k)"
    using cn by (simp add: length_CIFAR10_pseudo)
  from t 0 k show ?thesis by blast
qed

theorem training_set_is_labelled_plus_latest_pseudo_witness:
  "(scheduler scenario_args = ''step'' \<or> scheduler scenario_args = ''cos'')
   \<and> 1 \<le> epochs scenario_args
   \<and> (\<forall>ds st. 0 < val_top1 (run_epoch scenario_world ds st 0))
   \<and> 1 \<le> steps scenario_args
   \<and> train_dl scenario_trainer = train_ds scenario_trainer
   \<and> map_sum id (\<lambda>s. (map (length \<circ> snd) (trained_sets (trace s)),
                        map length (labelled_pairs (trace s))))
       (train scenario_args scenario_world scenario_trainer)
     = Inr ([2, 2 + 4, 2 + 0], [4, 0])"
proof -
  have h1: "scheduler scenario_args = ''step'' \<or> scheduler scenario_args = ''cos''"
    and h2: "1 \<le> epochs scenario_args" and h4: "1 \<le> steps scenario_args"
    by (simp_all add: scenario_args_def)
  have h3: "\<forall>ds st. 0 < val_top1 (run_epoch scenario_world ds st 0)"
    by (simp add: scenario_world_def table_world_def)
  have h5: "train_dl scenario_trainer = train_ds scenario_trainer"
    by (simp add: scenario_trainer_def init_trainer_def)
  have e: "map_sum id (\<lambda>s. (map (length \<circ> snd) (trained_sets (trace s)),
                        map length (labelled_pairs (trace s))))
       (train scenario_args scenario_world scenario_trainer)
     = Inr ([2, 2 + 4, 2 + 0], [4, 0])"
    by code_simp
  show ?thesis
    using h1 h2 h3 h4 h5 e
      training_set_is_labelled_plus_latest_pseudo [OF h1 h2 h3 h4 h5]
    by blast
qed


text \<open>
  C2, as stated, fails. In the scenario the labelling pass of round 1 accepts nothing;
  the round after it trains on the two labelled examples, not on the six examples that
  round 1 trained on.
\<close>

theorem later_empty_labelling_changes_training_set:
  "map_sum id (\<lambda>s. (labelled_pairs (trace s), trained_sets (trace s)))
       (train scenario_args scenario_world scenario_trainer)
     = Inr ([[(0, 0), (2, 2), (4, 4), (7, 7)], []],
            [(0, [(100, 3), (101, 5)]),
             (1, [(100, 3), (101, 5), (0, 0), (2, 2), (4, 4), (7, 7)]),
             (2, [(100, 3), (101, 5)])])
   \<and> [(100 :: nat, 3 :: nat), (101, 5)]
       \<noteq> [(100, 3), (101, 5), (0, 0), (2, 2), (4, 4), (7, 7)]"
  by code_simp

section \<open>An empty pseudo-label set\<close>

lemma select_pseudo_none:
  assumes "0 < batch_size args"
      and "\<forall>x\<in>set pool. fst (infer w p x) \<le> threshold args"
  shows "select_pseudo args w p pool = ([], [])"
proof -
  have "filter (\<lambda>i. threshold args < fst (infer w p (pool ! i))) [0..<length pool] = []"
    using assms(2) by (auto simp: filter_empty_conv not_less)
  with select_pseudo_eq [OF assms(1), of w p pool] show ?thesis by simp
qed

text \<open>
  C2, amended. If no image of the pool has a confidence above the threshold, the
  labelling pass returns normally with an empty pseudo-labelled partition and leaves the
  training loader on exactly the original labelled set; this is the training set of the
  round before exactly when that set was the labelled set alone (as in round 0). The
  next call of \<open>train_noisy\<close> returns as well and has trained on the labelled set.
\<close>

theorem empty_pseudo_labels_give_labelled_set:
  assumes "0 < batch_size args"
      and "\<forall>x\<in>set (unlabel_ds slf). fst (infer w (teacher slf) x) \<le> threshold args"
      and "scheduler args = ''step'' \<or> scheduler args = ''cos''"
  shows "pseudo_ds (get_pseudo_label args w slf) = []
     \<and> train_dl (get_pseudo_label args w slf) = train_ds slf
     \<and> trace (get_pseudo_label args w slf) = trace slf @ [Labelled (teacher slf) []]
     \<and> (train_dl (get_pseudo_label args w slf) = train_dl slf \<longleftrightarrow> train_dl slf = train_ds slf)
     \<and> (\<exists>s2 n c. train_noisy args w step (get_pseudo_label args w slf) = Inr s2
           \<and> trace s2 = trace (get_pseudo_label args w slf) @ [Trained step (train_ds slf) n c])"
proof -
  note n = select_pseudo_none [OF assms(1,2)]
  have 1: "pseudo_ds (get_pseudo_label args w slf) = []"
    by (simp add: get_pseudo_label_fields n CIFAR10_pseudo_def)
  have 2: "train_dl (get_pseudo_label args w slf) = train_ds slf"
    by (simp add: get_pseudo_label_fields n CIFAR10_pseudo_def)
  have 3: "trace (get_pseudo_label args w slf) = trace slf @ [Labelled (teacher slf) []]"
    by (simp add: get_pseudo_label_fields n)
  have 4: "train_dl (get_pseudo_label args w slf) = train_dl slf \<longleftrightarrow> train_dl slf = train_ds slf"
    using 2 by auto
  from train_noisy_vars_run [OF assms(3), of w step "get_pseudo_label args w slf"] obtain ls where
    r: "train_noisy_vars args w step (get_pseudo_label args w slf) = Inr ls"
    and fr: "frame_inv (get_pseudo_label args w slf) ls" by blast
  have 5: "\<exists>s2 n c. train_noisy args w step (get_pseudo_label args w slf) = Inr s2
           \<and> trace s2 = trace (get_pseudo_label args w slf) @ [Trained step (train_ds slf) n c]"
    using r fr 2 by (simp add: train_noisy_def frame_inv_def)
  from 1 2 3 4 5 show ?thesis by blast
qed

theorem empty_pseudo_labels_give_labelled_set_witness:
  "0 < batch_size scenario_args
   \<and> list_all (\<lambda>x. fst (infer scenario_world (teacher rejecting_trainer) x)
                     \<le> threshold scenario_args) (unlabel_ds rejecting_trainer)
   \<and> (scheduler scenario_args = ''step'' \<or> scheduler scenario_args = ''cos'')
   \<and> train_dl (get_pseudo_label scenario_args scenario_world rejecting_trainer)
       = [(100, 3), (101, 5)]
   \<and> train_dl rejecting_trainer \<noteq> train_ds rejecting_trainer"
proof -
  have h1: "0 < batch_size scenario_args"
    and h3: "scheduler scenario_args = ''step'' \<or> scheduler scenario_args = ''cos''"
    by (simp_all add: scenario_args_def)
  have l: "list_all (\<lambda>x. fst (infer scenario_world (teacher rejecting_trainer) x)
                     \<le> threshold scenario_args) (unlabel_ds rejecting_trainer)"
    by code_simp
  then have h2: "\<forall>x\<in>set (unlabel_ds rejecting_trainer).
         fst (infer scenario_world (teacher rejecting_trainer) x) \<le> threshold scenario_args"
    by (simp add: list_all_iff)
  have d: "train_ds rejecting_trainer = [(100, 3), (101, 5)]"
    "train_dl rejecting_trainer \<noteq> train_ds rejecting_trainer"
    by (simp_all add: rejecting_trainer_def scenario_trainer_def init_trainer_def)
  show ?thesis
    using h1 l h3 d
      empty_pseudo_labels_give_labelled_set [OF h1 h2 h3, of 2]
    by simp
qed

section \<open>The labelling pass reads only the teacher and the pool\<close>

text \<open>
  C9. The pseudo-labeller is deterministic and read-only. The teacher's forward pass in
  evaluation mode is a function of its parameters and the image (\<open>infer\<close>). Two passes
  whose trainers agree on the teacher's parameters and on the pool, with the same
  threshold and any usable batch sizes, and which may differ in everything else,
  produce the same pseudo-labelled partition and log the same teacher and accepted
  pairs. A pass leaves the teacher's and the student's parameters, the scheduler, the
  checkpoint files, the labelled set and the pool as they were; it puts the teacher in
  evaluation mode; every forward call of the pass, one per batch, runs in evaluation
  mode with gradient tracking off, and the gradient switch is restored afterwards.
\<close>

theorem pseudo_labeller_deterministic_read_only:
  assumes "0 < batch_size args" and "0 < batch_size args'"
      and "threshold args' = threshold args"
      and "teacher slf' = teacher slf" and "unlabel_ds slf' = unlabel_ds slf"
  shows "pseudo_ds (get_pseudo_label args' w slf') = pseudo_ds (get_pseudo_label args w slf)
     \<and> last (trace (get_pseudo_label args' w slf')) = last (trace (get_pseudo_label args w slf))
     \<and> teacher (get_pseudo_label args w slf) = teacher slf
     \<and> student (get_pseudo_label args w slf) = student slf
     \<and> self_scheduler (get_pseudo_label args w slf) = self_scheduler slf
     \<and> files (get_pseudo_label args w slf) = files slf
     \<and> train_ds (get_pseudo_label args w slf) = train_ds slf
     \<and> unlabel_ds (get_pseudo_label args w slf) = unlabel_ds slf
     \<and> grad_enabled (get_pseudo_label args w slf) = grad_enabled slf
     \<and> teacher_training (get_pseudo_label args w slf) = False
     \<and> forwards (get_pseudo_label args w slf)
         = forwards slf
           @ replicate (length (batches (batch_size args) (unlabel_ds slf))) (False, False)"
proof -
  have "select_pseudo args' w (teacher slf') (unlabel_ds slf')
      = select_pseudo args w (teacher slf) (unlabel_ds slf)"
    unfolding select_pseudo_eq [OF assms(1)] select_pseudo_eq [OF assms(2)] assms(3,4,5) ..
  then show ?thesis
    by (simp add: get_pseudo_label_fields assms(4,5))
qed

theorem pseudo_labeller_deterministic_read_only_witness:
  "0 < batch_size scenario_args \<and> 0 < batch_size (scenario_args\<lparr>batch_size := 3\<rparr>)
   \<and> threshold (scenario_args\<lparr>batch_size := 3\<rparr>) = threshold scenario_args
   \<and> teacher other_trainer = teacher (scenario_trainer\<lparr>teacher := (0, 1)\<rparr>)
   \<and> unlabel_ds other_trainer = unlabel_ds (scenario_trainer\<lparr>teacher := (0, 1)\<rparr>)
   \<and> pseudo_ds (get_pseudo_label (scenario_args\<lparr>batch_size := 3\<rparr>) scenario_world other_trainer)
       = pseudo_ds (get_pseudo_label scenario_args scenario_world
                      (scenario_trainer\<lparr>teacher := (0, 1)\<rparr>))
   \<and> pseudo_ds (get_pseudo_label scenario_args scenario_world
                      (scenario_trainer\<lparr>teacher := (0, 1)\<rparr>))
       = [(0, 0), (2, 2), (4, 4), (7, 7)]
   \<and> student other_trainer \<noteq> student (scenario_trainer\<lparr>teacher := (0, 1)\<rparr>)"
proof -
  have h1: "0 < batch_size scenario_args"
    and h2: "0 < batch_size (scenario_args\<lparr>batch_size := 3\<rparr>)"
    and h3: "threshold (scenario_args\<lparr>batch_size := 3\<rparr>) = threshold scenario_args"
    by (simp_all add: scenario_args_def)
  have h4: "teacher other_trainer = teacher (scenario_trainer\<lparr>teacher := (0, 1)\<rparr>)"
    and h5: "unlabel_ds other_trainer = unlabel_ds (scenario_trainer\<lparr>teacher := (0, 1)\<rparr>)"
    and d: "student other_trainer \<noteq> student (scenario_trainer\<lparr>teacher := (0, 1)\<rparr>)"
    by (simp_all add: other_trainer_def scenario_trainer_def init_trainer_def
          scenario_world_def table_world_def)
  have e: "pseudo_ds (get_pseudo_label scenario_args scenario_world
                      (scenario_trainer\<lparr>teacher := (0, 1)\<rparr>))
       = [(0, 0), (2, 2), (4, 4), (7, 7)]"
    by code_simp
  show ?thesis
    using h1 h2 h3 h4 h5 d e
      pseudo_labeller_deterministic_read_only [OF h1 h2 h3 h4 h5, of scenario_world]
    by simp
qed

end
